theory Spec2Isabelle
  imports Main
begin

section \<open>Data model (constants.ts, types.ts)\<close>

text \<open>
  The enumerations of constants.ts. \<open>API_PERFORMANCE\<close> is the member the tracker's API
  monitoring refers to.
\<close>

datatype EventType =
  PAGE_VIEW | PAGE_DURATION | CLICK | CUSTOM | ERROR | PERFORMANCE | USER_ACTION | API_PERFORMANCE

datatype ReportMethod = IMMEDIATE | BATCH | BEACON

text \<open>
  Values of custom properties are JSON data. A JSON text is represented by the value it
  denotes, so \<open>JSON.parse (JSON.stringify v) = v\<close> holds by construction and
  \<open>safeStringify\<close> has no failing branch on these values.
\<close>

datatype json =
  JNull | JBool bool | JNum int | JStr string | JArr "json list" | JObj "(string \<times> json) list"

text \<open>
  \<open>interface TrackEvent\<close>: every optional field is an option, \<open>None\<close> standing for
  \<open>undefined\<close>. \<open>properties\<close> is a \<open>Record<string, any>\<close> kept as an association
  list in key insertion order.
\<close>

record TrackEvent =
  eventType :: EventType
  eventName :: string
  properties :: "(string \<times> json) list option"
  timestamp :: "int option"
  userId :: "string option"
  sessionId :: "string option"
  pageUrl :: "string option"
  pageTitle :: "string option"
  userAgent :: "string option"
  screenResolution :: "string option"
  deviceType :: "string option"
  duration :: "int option"
  click_for :: "string option"

text \<open>
  \<open>interface TrackerConfig\<close>, restricted to the fields the pipeline reads (the debug
  switch, the headers and the click and error switches only steer logging, request headers
  and event origins). The configured user id is \<open>cfg_userId\<close>, the name \<open>userId\<close> being
  taken by the event's field.
\<close>

record TrackerConfig =
  reportUrl :: string
  appId :: string
  cfg_userId :: "string option"
  reportMethod :: "ReportMethod option"
  batchSize :: "int option"
  batchInterval :: "int option"
  timeout :: "int option"
  autoTrackPageView :: "bool option"

text \<open>\<open>DEFAULT_CONFIG\<close> and the spread \<open>{ ...DEFAULT_CONFIG, ...config }\<close> of the constructor.\<close>

definition or_default :: "'a option \<Rightarrow> 'a \<Rightarrow> 'a option" where
  "or_default given dflt = (case given of Some v \<Rightarrow> Some v | None \<Rightarrow> Some dflt)"

definition with_DEFAULT_CONFIG :: "TrackerConfig \<Rightarrow> TrackerConfig" where
  "with_DEFAULT_CONFIG c =
     c\<lparr> reportMethod := or_default (reportMethod c) BATCH,
        batchSize := or_default (batchSize c) 10,
        batchInterval := or_default (batchInterval c) 5000,
        timeout := or_default (timeout c) 10000,
        autoTrackPageView := or_default (autoTrackPageView c) True \<rparr>"

text \<open>JavaScript's \<open>a || b\<close> on an optional string and on an optional number.\<close>

definition or_str :: "string option \<Rightarrow> string \<Rightarrow> string" where
  "or_str a b = (case a of Some s \<Rightarrow> if s \<noteq> [] then s else b | None \<Rightarrow> b)"

definition or_num :: "int option \<Rightarrow> int \<Rightarrow> int" where
  "or_num a b = (case a of Some n \<Rightarrow> if n \<noteq> 0 then n else b | None \<Rightarrow> b)"

definition or_str_opt :: "string option \<Rightarrow> string option \<Rightarrow> string option" where
  "or_str_opt a b = (case a of Some s \<Rightarrow> if s \<noteq> [] then Some s else b | None \<Rightarrow> b)"

section \<open>Reporter (reporter.ts)\<close>

subsection \<open>formatPayload\<close>

text \<open>
  A JavaScript object under construction is an association list from keys to values,
  \<open>None\<close> being \<open>undefined\<close>. Assigning to a key that exists replaces its value in place,
  assigning to a new key appends it.
\<close>

fun obj_set :: "string \<Rightarrow> 'v \<Rightarrow> (string \<times> 'v) list \<Rightarrow> (string \<times> 'v) list" where
  "obj_set k v [] = [(k, v)]"
| "obj_set k v ((k', v') # rest) =
     (if k' = k then (k, v) # rest else (k', v') # obj_set k v rest)"

text \<open>
  Setting each own key of a source object, in order, on a target: the loop behind
  \<open>Object.assign(target, source)\<close> and behind the object spread \<open>{ ...target, ...source }\<close>.
\<close>

fun obj_assign :: "(string \<times> 'v) list \<Rightarrow> (string \<times> 'v) list \<Rightarrow> (string \<times> 'v) list" where
  "obj_assign target [] = target"
| "obj_assign target ((k, v) # source) = obj_assign (obj_set k v target) source"

text \<open>\<open>Object.assign(formattedEvent, event.properties)\<close>; every property value is defined.\<close>

definition Object_assign ::
  "(string \<times> json option) list \<Rightarrow> (string \<times> json) list \<Rightarrow> (string \<times> json option) list" where
  "Object_assign target source = obj_assign target (map (\<lambda>(k, v). (k, Some v)) source)"

definition Object_keys :: "(string \<times> 'v) list \<Rightarrow> string list" where
  "Object_keys ob = map fst ob"

text \<open>The object literal that opens the \<open>map\<close> callback of \<open>formatPayload\<close>.\<close>

definition canonical_fields :: "TrackerConfig \<Rightarrow> TrackEvent \<Rightarrow> (string \<times> json option) list" where
  "canonical_fields cfg event =
     [ (''event_name'', Some (JStr (eventName event))),
       (''user_id'', map_option JStr (userId event)),
       (''session_id'', map_option JStr (sessionId event)),
       (''timestamp'', map_option JNum (timestamp event)),
       (''app_id'', Some (JStr (appId cfg))),
       (''platform'', Some (JStr (or_str (deviceType event) ''desktop''))),
       (''user_agent'', map_option JStr (userAgent event)),
       (''page_url'', map_option JStr (pageUrl event)) ]"

definition formatEvent :: "TrackerConfig \<Rightarrow> TrackEvent \<Rightarrow> (string \<times> json option) list" where
  "formatEvent cfg event =
     (let formattedEvent = canonical_fields cfg event in
      case properties event of
        None \<Rightarrow> formattedEvent
      | Some props \<Rightarrow>
          if length (Object_keys props) > 0 then Object_assign formattedEvent props
          else formattedEvent)"

text \<open>\<open>JSON.stringify\<close> leaves out the keys whose value is \<open>undefined\<close>.\<close>

fun stringify_fields :: "(string \<times> json option) list \<Rightarrow> (string \<times> json) list" where
  "stringify_fields [] = []"
| "stringify_fields ((k, None) # rest) = stringify_fields rest"
| "stringify_fields ((k, Some v) # rest) = (k, v) # stringify_fields rest"

definition wire_record :: "TrackerConfig \<Rightarrow> TrackEvent \<Rightarrow> (string \<times> json) list" where
  "wire_record cfg event = stringify_fields (formatEvent cfg event)"

definition formatPayload :: "TrackerConfig \<Rightarrow> TrackEvent list \<Rightarrow> json" where
  "formatPayload cfg events =
     JObj [(''events'', JArr (map (\<lambda>event. JObj (wire_record cfg event)) events))]"

definition reserved_fields :: "string list" where
  "reserved_fields =
     [''event_name'', ''user_id'', ''session_id'', ''timestamp'',
      ''app_id'', ''platform'', ''user_agent'', ''page_url'']"

subsection \<open>The transport primitives\<close>

text \<open>
  The browser's network primitives are inputs. \<open>fetch\<close> answers a request (url and body)
  with a response status or rejects; a rejection named \<open>AbortError\<close> is what the timeout's
  \<open>controller.abort()\<close> produces. \<open>navigator.sendBeacon\<close> may be missing; when present it
  returns whether the user agent queued the data, or throws. \<open>hasAbortController\<close> says
  whether \<open>new AbortController()\<close> succeeds.
\<close>

datatype js_error = AbortError | OtherError

datatype fetch_result = Response nat | Rejected js_error

datatype beacon_result = Queued bool | BeaconThrew

record net_env =
  hasAbortController :: bool
  fetch :: "string \<Rightarrow> json \<Rightarrow> fetch_result"
  navigator_sendBeacon :: "(string \<Rightarrow> json \<Rightarrow> beacon_result) option"

text \<open>\<open>response.ok\<close>\<close>

definition response_ok :: "nat \<Rightarrow> bool" where
  "response_ok status = (200 \<le> status \<and> status \<le> 299)"

text \<open>
  \<open>sendFetch\<close>: the controller is created before the \<open>try\<close>, so its failure leaves the
  function as an exception (\<open>Inl\<close>); everything after is caught and becomes \<open>false\<close>.
\<close>

definition sendFetch :: "TrackerConfig \<Rightarrow> net_env \<Rightarrow> TrackEvent list \<Rightarrow> js_error + bool" where
  "sendFetch cfg env events =
     (if \<not> hasAbortController env then Inl OtherError
      else case fetch env (reportUrl cfg) (formatPayload cfg events) of
             Response status \<Rightarrow> if response_ok status then Inr True else Inr False
           | Rejected error \<Rightarrow> Inr False)"

definition sendBeacon :: "TrackerConfig \<Rightarrow> net_env \<Rightarrow> TrackEvent list \<Rightarrow> js_error + bool" where
  "sendBeacon cfg env events =
     (case navigator_sendBeacon env of
        None \<Rightarrow>
          (case sendFetch cfg env events of Inr result \<Rightarrow> Inr result | Inl error \<Rightarrow> Inr False)
      | Some beacon \<Rightarrow>
          (case beacon (reportUrl cfg) (formatPayload cfg events) of
             Queued success \<Rightarrow> Inr success
           | BeaconThrew \<Rightarrow> Inr False))"

definition report :: "TrackerConfig \<Rightarrow> net_env \<Rightarrow> TrackEvent list \<Rightarrow> js_error + bool" where
  "report cfg env events =
     (if length events = 0 then Inr True
      else case (case reportMethod cfg of
                   Some BEACON \<Rightarrow> sendBeacon cfg env events
                 | _ \<Rightarrow> sendFetch cfg env events) of
             Inr result \<Rightarrow> Inr result
           | Inl error \<Rightarrow> Inr False)"


section \<open>StorageManager (storage.ts)\<close>

text \<open>
  The key-value store holds the three keys of \<open>STORAGE_KEYS\<close>, one field each. The text
  under \<open>argos_pending_events\<close> is either the JSON text of an event array, represented by
  the array, or text that \<open>JSON.parse\<close> rejects.
\<close>

datatype stored_events = EventsJSON "TrackEvent list" | Unparsable

record web_storage =
  argos_session_id :: "string option"
  argos_user_id :: "string option"
  argos_pending_events :: "stored_events option"

text \<open>
  The manager's two private fields, and the browser's \<open>window.localStorage\<close> it works on.
  \<open>localStorage = None\<close> is a store that is missing or whose every access throws: the
  wrappers \<open>getItem\<close>, \<open>setItem\<close> and \<open>removeItem\<close> then degrade to \<open>null\<close> and to doing
  nothing, as their guards and \<open>catch\<close> blocks do. A key is named by its field.
\<close>

record StorageManager =
  sm_sessionId :: string
  sm_userId :: "string option"
  localStorage :: "web_storage option"

definition getItem :: "(web_storage \<Rightarrow> 'a option) \<Rightarrow> StorageManager \<Rightarrow> 'a option" where
  "getItem key sm = (case localStorage sm of None \<Rightarrow> None | Some ls \<Rightarrow> key ls)"

definition setItem :: "(web_storage \<Rightarrow> web_storage) \<Rightarrow> StorageManager \<Rightarrow> StorageManager" where
  "setItem write sm =
     (case localStorage sm of None \<Rightarrow> sm | Some ls \<Rightarrow> sm\<lparr>localStorage := Some (write ls)\<rparr>)"

definition removeItem :: "(web_storage \<Rightarrow> web_storage) \<Rightarrow> StorageManager \<Rightarrow> StorageManager" where
  "removeItem erase sm =
     (case localStorage sm of None \<Rightarrow> sm | Some ls \<Rightarrow> sm\<lparr>localStorage := Some (erase ls)\<rparr>)"

definition getOrCreateSessionId :: "string \<Rightarrow> StorageManager \<Rightarrow> string \<times> StorageManager" where
  "getOrCreateSessionId uuid sm =
     (case getItem argos_session_id sm of
        Some sid \<Rightarrow>
          if sid \<noteq> [] then (sid, sm)
          else (uuid, setItem (\<lambda>ls. ls\<lparr>argos_session_id := Some uuid\<rparr>) sm)
      | None \<Rightarrow> (uuid, setItem (\<lambda>ls. ls\<lparr>argos_session_id := Some uuid\<rparr>) sm))"

definition getSessionId :: "StorageManager \<Rightarrow> string" where
  "getSessionId sm = sm_sessionId sm"

definition setUserId :: "string \<Rightarrow> StorageManager \<Rightarrow> StorageManager" where
  "setUserId uid sm = setItem (\<lambda>ls. ls\<lparr>argos_user_id := Some uid\<rparr>) (sm\<lparr>sm_userId := Some uid\<rparr>)"

definition truthy_str :: "string option \<Rightarrow> bool" where
  "truthy_str a = (case a of Some s \<Rightarrow> s \<noteq> [] | None \<Rightarrow> False)"

definition getUserId :: "StorageManager \<Rightarrow> string option \<times> StorageManager" where
  "getUserId sm =
     (if truthy_str (sm_userId sm) then (sm_userId sm, sm)
      else let storedUserId = getItem argos_user_id sm in
           if truthy_str storedUserId then (storedUserId, sm\<lparr>sm_userId := storedUserId\<rparr>)
           else (None, sm))"

definition clearUserId :: "StorageManager \<Rightarrow> StorageManager" where
  "clearUserId sm = removeItem (\<lambda>ls. ls\<lparr>argos_user_id := None\<rparr>) (sm\<lparr>sm_userId := None\<rparr>)"

definition getPendingEvents :: "StorageManager \<Rightarrow> TrackEvent list" where
  "getPendingEvents sm =
     (case getItem argos_pending_events sm of
        None \<Rightarrow> []
      | Some Unparsable \<Rightarrow> []
      | Some (EventsJSON events) \<Rightarrow> events)"

definition savePendingEvents :: "TrackEvent list \<Rightarrow> StorageManager \<Rightarrow> StorageManager" where
  "savePendingEvents events sm =
     (let existingEvents = getPendingEvents sm;
          allEvents = existingEvents @ events
      in setItem (\<lambda>ls. ls\<lparr>argos_pending_events := Some (EventsJSON allEvents)\<rparr>) sm)"

definition clearPendingEvents :: "StorageManager \<Rightarrow> StorageManager" where
  "clearPendingEvents sm = removeItem (\<lambda>ls. ls\<lparr>argos_pending_events := None\<rparr>) sm"

text \<open>The constructor; \<open>uuid\<close> is what \<open>generateUUID()\<close> would return.\<close>

definition new_StorageManager :: "string \<Rightarrow> web_storage option \<Rightarrow> StorageManager" where
  "new_StorageManager uuid ls =
     (let sm0 = \<lparr>sm_sessionId = [], sm_userId = None, localStorage = ls\<rparr>;
          (sid, sm1) = getOrCreateSessionId uuid sm0;
          sm2 = sm1\<lparr>sm_sessionId := sid\<rparr>;
          (uid, sm3) = getUserId sm2
      in sm3\<lparr>sm_userId := uid\<rparr>)"

section \<open>AutoCollector (collector.ts)\<close>

text \<open>What the page shows to the scripts at the moment of a call.\<close>

record browser =
  now :: int
  location_href :: string
  document_title :: string
  document_referrer :: string
  navigator_userAgent :: string
  screenResolution_now :: string
  deviceType_now :: string
  random_uuid :: string

record AutoCollector =
  isCollecting :: bool
  pageStartTime :: int
  lastPageViewUrl :: string
  lastPageViewTime :: int

definition new_AutoCollector :: AutoCollector where
  "new_AutoCollector =
     \<lparr>isCollecting = False, pageStartTime = 0, lastPageViewUrl = [], lastPageViewTime = 0\<rparr>"

text \<open>An event object literal that sets only its type and name.\<close>

definition bare_event :: "EventType \<Rightarrow> string \<Rightarrow> TrackEvent" where
  "bare_event ty name =
     \<lparr>eventType = ty, eventName = name, properties = None, timestamp = None, userId = None,
      sessionId = None, pageUrl = None, pageTitle = None, userAgent = None,
      screenResolution = None, deviceType = None, duration = None, click_for = None\<rparr>"

text \<open>
  \<open>AutoCollector.trackPageView\<close>. The result is the collector afterwards and the event
  handed to \<open>eventCallback\<close>, \<open>None\<close> when the call returns early. A \<open>referrer\<close> that is
  \<open>undefined\<close> is left out of the properties, as serialisation leaves it out.
\<close>

definition collector_trackPageView :: "browser \<Rightarrow> AutoCollector \<Rightarrow> AutoCollector \<times> TrackEvent option" where
  "collector_trackPageView b c =
     (let currentUrl = location_href b;
          currentTime = now b
      in if lastPageViewUrl c = currentUrl \<and> currentTime - lastPageViewTime c < 100
         then (c, None)
         else (c\<lparr>lastPageViewUrl := currentUrl, lastPageViewTime := currentTime\<rparr>,
               Some ((bare_event PAGE_VIEW ''page_view'')
                 \<lparr>properties :=
                    Some ([(''url'', JStr currentUrl), (''title'', JStr (document_title b))]
                          @ (if document_referrer b \<noteq> [] then [(''referrer'', JStr (document_referrer b))]
                             else [])),
                  timestamp := Some currentTime\<rparr>)))"

definition collector_start :: "browser \<Rightarrow> bool option \<Rightarrow> AutoCollector \<Rightarrow> AutoCollector \<times> TrackEvent option" where
  "collector_start b optTrackPageView c =
     (if isCollecting c then (c, None)
      else let c1 = c\<lparr>isCollecting := True, pageStartTime := now b\<rparr>
           in if optTrackPageView = Some True then collector_trackPageView b c1 else (c1, None))"

definition collector_stop :: "AutoCollector \<Rightarrow> AutoCollector" where
  "collector_stop c = (if \<not> isCollecting c then c else c\<lparr>isCollecting := False\<rparr>)"

section \<open>ArgosTracker (tracker.ts)\<close>

text \<open>
  The first six fields are the fields of the class. \<open>timers\<close> and \<open>lastTimerId\<close> are the
  browser's table of pending timeouts (handle, delay in milliseconds, callback) and the last
  handle it gave out; handles start at 1, so a handle is truthy. The remaining fields are
  history: \<open>pushed\<close> lists every event ever pushed onto \<open>eventQueue\<close>, \<open>handedToReporter\<close>
  every batch \<open>sendEvents\<close> passed to \<open>this.reporter.report\<close>, \<open>inFlight\<close> those of them whose
  promise has not settled yet, and \<open>beaconSends\<close> every batch the unload handler passed to
  its temporary reporter, with the result of that call. No function reads a history field to
  decide what to do.
\<close>

datatype timer_callback = BatchSendCallback | RestoreSendCallback

record ArgosTracker =
  config :: TrackerConfig
  storage :: StorageManager
  collector :: AutoCollector
  eventQueue :: "TrackEvent list"
  batchTimer :: "nat option"
  isInitialized :: bool
  timers :: "(nat \<times> int \<times> timer_callback) list"
  lastTimerId :: nat
  pushed :: "TrackEvent list"
  handedToReporter :: "TrackEvent list list"
  inFlight :: "TrackEvent list list"
  beaconSends :: "(TrackEvent list \<times> (js_error + bool)) list"

definition window_setTimeout :: "timer_callback \<Rightarrow> int \<Rightarrow> ArgosTracker \<Rightarrow> nat \<times> ArgosTracker" where
  "window_setTimeout callback delay s =
     (let handle = Suc (lastTimerId s)
      in (handle, s\<lparr>timers := timers s @ [(handle, delay, callback)], lastTimerId := handle\<rparr>))"

definition clearTimeout :: "nat \<Rightarrow> ArgosTracker \<Rightarrow> ArgosTracker" where
  "clearTimeout handle s = s\<lparr>timers := filter (\<lambda>t. fst t \<noteq> handle) (timers s)\<rparr>"

text \<open>The test \<open>if (this.batchTimer)\<close>.\<close>

definition timer_armed :: "nat option \<Rightarrow> bool" where
  "timer_armed t = (case t of Some handle \<Rightarrow> handle \<noteq> 0 | None \<Rightarrow> False)"

text \<open>
  \<open>sendEvents\<close> up to its \<open>await\<close>: the queue is copied and replaced, and the call of
  \<open>report\<close> starts the request with that copy.
\<close>

definition sendEvents :: "ArgosTracker \<Rightarrow> ArgosTracker" where
  "sendEvents s =
     (if length (eventQueue s) = 0 then s
      else let eventsToSend = eventQueue s
           in s\<lparr>eventQueue := [],
                handedToReporter := handedToReporter s @ [eventsToSend],
                inFlight := inFlight s @ [eventsToSend]\<rparr>)"

text \<open>
  \<open>sendEvents\<close> after its \<open>await\<close>, for the batch it had copied: the network answers as
  \<open>env\<close> says, and both a \<open>false\<close> result and an exception save the batch.
\<close>

definition sendEvents_settle :: "net_env \<Rightarrow> TrackEvent list \<Rightarrow> ArgosTracker \<Rightarrow> ArgosTracker" where
  "sendEvents_settle env eventsToSend s =
     (case report (config s) env eventsToSend of
        Inr success \<Rightarrow>
          if \<not> success then s\<lparr>storage := savePendingEvents eventsToSend (storage s)\<rparr> else s
      | Inl error \<Rightarrow> s\<lparr>storage := savePendingEvents eventsToSend (storage s)\<rparr>)"

definition scheduleBatchSend :: "ArgosTracker \<Rightarrow> ArgosTracker" where
  "scheduleBatchSend s =
     (if timer_armed (batchTimer s) then s
      else let (handle, s1) =
                 window_setTimeout BatchSendCallback (or_num (batchInterval (config s)) 5000) s
           in s1\<lparr>batchTimer := Some handle\<rparr>)"

definition addToQueue :: "TrackEvent \<Rightarrow> ArgosTracker \<Rightarrow> ArgosTracker" where
  "addToQueue event s =
     (let s1 = s\<lparr>eventQueue := eventQueue s @ [event], pushed := pushed s @ [event]\<rparr>
      in if reportMethod (config s1) = Some IMMEDIATE then sendEvents s1
         else if reportMethod (config s1) = Some BATCH then
           (if int (length (eventQueue s1)) \<ge> or_num (batchSize (config s1)) 10
            then sendEvents s1
            else scheduleBatchSend s1)
         else s1)"

definition trackEvent :: "browser \<Rightarrow> TrackEvent \<Rightarrow> ArgosTracker \<Rightarrow> ArgosTracker" where
  "trackEvent b event s =
     (if \<not> isInitialized s then s
      else let (uid, sm) = (if truthy_str (userId event) then (userId event, storage s)
                            else getUserId (storage s));
               fullEvent = event
                 \<lparr>timestamp := Some (or_num (timestamp event) (now b)),
                  userId := uid,
                  sessionId := Some (or_str (sessionId event) (getSessionId sm)),
                  pageUrl := Some (or_str (pageUrl event) (location_href b)),
                  pageTitle := Some (or_str (pageTitle event) (document_title b)),
                  userAgent := Some (or_str (userAgent event) (navigator_userAgent b)),
                  screenResolution := Some (or_str (screenResolution event) (screenResolution_now b)),
                  deviceType := Some (or_str (deviceType event) (deviceType_now b))\<rparr>
           in addToQueue fullEvent (s\<lparr>storage := sm\<rparr>))"

definition handleAutoEvent :: "browser \<Rightarrow> TrackEvent \<Rightarrow> ArgosTracker \<Rightarrow> ArgosTracker" where
  "handleAutoEvent b event s = trackEvent b event s"

definition getPageInfo :: "browser \<Rightarrow> (string \<times> json) list" where
  "getPageInfo b =
     [(''url'', JStr (location_href b)), (''title'', JStr (document_title b)),
      (''referrer'', JStr (document_referrer b))]"

text \<open>\<open>ArgosTracker.trackPageView\<close>, the page view a caller tracks by hand.\<close>

definition trackPageView :: "browser \<Rightarrow> (string \<times> json) list option \<Rightarrow> ArgosTracker \<Rightarrow> ArgosTracker" where
  "trackPageView b props s =
     (let pageInfo = getPageInfo b
      in trackEvent b
           ((bare_event PAGE_VIEW ''page_view'')
              \<lparr>properties := Some (obj_assign pageInfo (case props of None \<Rightarrow> [] | Some ps \<Rightarrow> ps))\<rparr>)
           s)"

text \<open>
  The callback the collector installs on \<open>history.pushState\<close> and \<open>replaceState\<close>; the hooks
  exist while the collector runs with page-view tracking on.
\<close>

definition history_change :: "browser \<Rightarrow> ArgosTracker \<Rightarrow> ArgosTracker" where
  "history_change b s =
     (if isCollecting (collector s) \<and> autoTrackPageView (config s) = Some True then
        (let (c, created) = collector_trackPageView b (collector s);
             s1 = s\<lparr>collector := c\<rparr>;
             s2 = (case created of None \<Rightarrow> s1 | Some event \<Rightarrow> handleAutoEvent b event s1)
         in s2\<lparr>collector := (collector s2)\<lparr>pageStartTime := now b\<rparr>\<rparr>)
      else s)"

definition cancelBatchTimer :: "ArgosTracker \<Rightarrow> ArgosTracker" where
  "cancelBatchTimer s =
     (case batchTimer s of
        None \<Rightarrow> s
      | Some handle \<Rightarrow> if handle \<noteq> 0 then (clearTimeout handle s)\<lparr>batchTimer := None\<rparr> else s)"

definition flush :: "ArgosTracker \<Rightarrow> ArgosTracker" where
  "flush s = sendEvents (cancelBatchTimer s)"

definition destroy :: "ArgosTracker \<Rightarrow> ArgosTracker" where
  "destroy s =
     (let s1 = s\<lparr>collector := collector_stop (collector s)\<rparr>;
          s2 = cancelBatchTimer s1;
          s3 = flush s2
      in s3\<lparr>isInitialized := False\<rparr>)"

text \<open>A timeout comes due: it leaves the table and its callback runs.\<close>

definition timer_fires :: "nat \<Rightarrow> ArgosTracker \<Rightarrow> ArgosTracker" where
  "timer_fires handle s =
     (case find (\<lambda>t. fst t = handle) (timers s) of
        None \<Rightarrow> s
      | Some (h, delay, callback) \<Rightarrow>
          (let s1 = clearTimeout handle s
           in case callback of
                BatchSendCallback \<Rightarrow> (sendEvents s1)\<lparr>batchTimer := None\<rparr>
              | RestoreSendCallback \<Rightarrow> sendEvents s1))"

text \<open>The promise of the \<open>i\<close>-th request in flight settles.\<close>

definition report_settles :: "nat \<Rightarrow> net_env \<Rightarrow> ArgosTracker \<Rightarrow> ArgosTracker" where
  "report_settles i env s =
     (if i < length (inFlight s)
      then sendEvents_settle env (inFlight s ! i)
             (s\<lparr>inFlight := take i (inFlight s) @ drop (Suc i) (inFlight s)\<rparr>)
      else s)"

definition restorePendingEvents :: "ArgosTracker \<Rightarrow> ArgosTracker" where
  "restorePendingEvents s =
     (let pendingEvents = getPendingEvents (storage s)
      in if length pendingEvents > 0 then
           (let s1 = s\<lparr>eventQueue := eventQueue s @ pendingEvents,
                       pushed := pushed s @ pendingEvents\<rparr>;
                s2 = s1\<lparr>storage := clearPendingEvents (storage s1)\<rparr>
            in snd (window_setTimeout RestoreSendCallback 1000 s2))
         else s)"

text \<open>
  \<open>handleBeforeUnload\<close>, the listener of \<open>beforeunload\<close> and \<open>pagehide\<close>. The promise of the
  temporary reporter is dropped, so its result only shows in the history.
\<close>

definition handleBeforeUnload :: "net_env \<Rightarrow> ArgosTracker \<Rightarrow> ArgosTracker" where
  "handleBeforeUnload env s =
     (if length (eventQueue s) > 0 then
        (let tempReporter = (config s)\<lparr>reportMethod := Some BEACON\<rparr>;
             outcome = report tempReporter env (eventQueue s);
             s1 = s\<lparr>beaconSends := beaconSends s @ [(eventQueue s, outcome)]\<rparr>
         in s1\<lparr>storage := savePendingEvents (eventQueue s1) (storage s1)\<rparr>)
      else s)"

definition init :: "browser \<Rightarrow> ArgosTracker \<Rightarrow> ArgosTracker" where
  "init b s =
     (if isInitialized s then s
      else let s1 = (case cfg_userId (config s) of
                       None \<Rightarrow> s
                     | Some uid \<Rightarrow> if uid \<noteq> [] then s\<lparr>storage := setUserId uid (storage s)\<rparr> else s);
               (c, created) = collector_start b (autoTrackPageView (config s1)) (collector s1);
               s2 = s1\<lparr>collector := c\<rparr>;
               s3 = (case created of None \<Rightarrow> s2 | Some event \<Rightarrow> handleAutoEvent b event s2);
               s4 = restorePendingEvents s3
           in s4\<lparr>isInitialized := True\<rparr>)"

definition new_ArgosTracker :: "browser \<Rightarrow> web_storage option \<Rightarrow> TrackerConfig \<Rightarrow> ArgosTracker" where
  "new_ArgosTracker b ls cfg =
     init b
       \<lparr>config = with_DEFAULT_CONFIG cfg,
        storage = new_StorageManager (random_uuid b) ls,
        collector = new_AutoCollector,
        eventQueue = [], batchTimer = None, isInitialized = False,
        timers = [], lastTimerId = 0,
        pushed = [], handedToReporter = [], inFlight = [], beaconSends = []\<rparr>"

subsection \<open>Everything that can happen to a tracker\<close>

text \<open>
  One action per entry point of the event loop. \<open>Track\<close> stands for every caller of
  \<open>trackEvent\<close>: \<open>track\<close>, \<open>trackUserAction\<close>, \<open>trackApiPerformance\<close>, \<open>setUser\<close>,
  \<open>clearUser\<close>, the request monitors and the collector's click and error listeners.
  \<open>TimerFires\<close> and \<open>ReportSettles\<close> are the browser running a due timeout and settling
  the promise of a request; \<open>PageGoingAway\<close> is \<open>beforeunload\<close> or \<open>pagehide\<close>.
\<close>

datatype action =
    Track browser TrackEvent
  | TrackPageView browser "(string \<times> json) list option"
  | HistoryChange browser
  | Flush
  | Destroy
  | TimerFires nat
  | ReportSettles nat net_env
  | PageGoingAway net_env

fun step :: "action \<Rightarrow> ArgosTracker \<Rightarrow> ArgosTracker" where
  "step (Track b event) s = trackEvent b event s"
| "step (TrackPageView b props) s = trackPageView b props s"
| "step (HistoryChange b) s = history_change b s"
| "step Flush s = flush s"
| "step Destroy s = destroy s"
| "step (TimerFires handle) s = timer_fires handle s"
| "step (ReportSettles i env) s = report_settles i env s"
| "step (PageGoingAway env) s = handleBeforeUnload env s"

fun run :: "action list \<Rightarrow> ArgosTracker \<Rightarrow> ArgosTracker" where
  "run [] s = s"
| "run (a # as) s = run as (step a s)"

text \<open>The pending timeouts that \<open>scheduleBatchSend\<close> armed.\<close>

definition batch_timers :: "ArgosTracker \<Rightarrow> (nat \<times> int \<times> timer_callback) list" where
  "batch_timers s = filter (\<lambda>t. snd (snd t) = BatchSendCallback) (timers s)"

text \<open>The handle that \<open>batchTimer\<close> holds when the test \<open>if (this.batchTimer)\<close> succeeds.\<close>

definition armed_handle :: "nat option \<Rightarrow> nat list" where
  "armed_handle t = (case t of Some handle \<Rightarrow> if handle \<noteq> 0 then [handle] else [] | None \<Rightarrow> [])"

text \<open>
  The timer table is in order when handles are distinct and no larger than the last one
  given out, and the pending batch timeouts are exactly the one \<open>batchTimer\<close> remembers.
\<close>

definition timers_in_order :: "ArgosTracker \<Rightarrow> bool" where
  "timers_in_order s \<longleftrightarrow>
     distinct (map fst (timers s)) \<and>
     list_all (\<lambda>t. fst t \<le> lastTimerId s) (timers s) \<and>
     map fst (batch_timers s) = armed_handle (batchTimer s)"

text \<open>
  Between a state \<open>s\<close> and a later state \<open>s'\<close> nothing is lost or duplicated when the
  batches handed to the reporter up to \<open>s\<close> are still the first batches at \<open>s'\<close>, the
  events pushed up to \<open>s\<close> are still the first pushed at \<open>s'\<close>, and the batches handed
  over since, followed by the queue at \<open>s'\<close>, are the queue at \<open>s\<close> followed by the
  events pushed since.
\<close>

definition conserved :: "ArgosTracker \<Rightarrow> ArgosTracker \<Rightarrow> bool" where
  "conserved s s' \<longleftrightarrow>
     take (length (handedToReporter s)) (handedToReporter s') = handedToReporter s \<and>
     take (length (pushed s)) (pushed s') = pushed s \<and>
     concat (drop (length (handedToReporter s)) (handedToReporter s')) @ eventQueue s'
       = eventQueue s @ drop (length (pushed s)) (pushed s')"

section \<open>Sample inputs\<close>

definition sample_config :: TrackerConfig where
  "sample_config =
     \<lparr>reportUrl = ''https://collector.example/track'', appId = ''shop'', cfg_userId = None,
      reportMethod = Some BATCH, batchSize = Some 3, batchInterval = Some 1000,
      timeout = None, autoTrackPageView = Some False\<rparr>"

definition sample_browser :: "int \<Rightarrow> browser" where
  "sample_browser t =
     \<lparr>now = t, location_href = ''https://shop.example/home'', document_title = ''Home'',
      document_referrer = [], navigator_userAgent = ''Mozilla/5.0'',
      screenResolution_now = ''1920x1080'', deviceType_now = ''desktop'',
      random_uuid = ''0acc9ccd-57fb-4e8f-b260-03584f0a307e''\<rparr>"

definition sample_event :: "string \<Rightarrow> TrackEvent" where
  "sample_event name =
     (bare_event CUSTOM name)
       \<lparr>timestamp := Some 1754979717847, sessionId := Some ''s-1'',
        pageUrl := Some ''https://shop.example/home''\<rparr>"

text \<open>A network that answers every request with the given status and queues every beacon.\<close>

definition sample_net :: "nat \<Rightarrow> net_env" where
  "sample_net status =
     \<lparr>hasAbortController = True, fetch = (\<lambda>url body. Response status),
      navigator_sendBeacon = Some (\<lambda>url body. Queued True)\<rparr>"

definition sample_storage :: "TrackEvent list \<Rightarrow> web_storage" where
  "sample_storage events =
     \<lparr>argos_session_id = Some ''s-1'', argos_user_id = None,
      argos_pending_events = (if events = [] then None else Some (EventsJSON events))\<rparr>"

text \<open>A running tracker in batch mode (batch size 3) with the given queue and store.\<close>

definition sample_tracker :: "TrackEvent list \<Rightarrow> web_storage option \<Rightarrow> ArgosTracker" where
  "sample_tracker queue ls =
     \<lparr>config = with_DEFAULT_CONFIG sample_config,
      storage = \<lparr>sm_sessionId = ''s-1'', sm_userId = None, localStorage = ls\<rparr>,
      collector = new_AutoCollector\<lparr>isCollecting := True\<rparr>,
      eventQueue = queue, batchTimer = None, isInitialized = True,
      timers = [], lastTimerId = 0,
      pushed = queue, handedToReporter = [], inFlight = [], beaconSends = []\<rparr>"


section \<open>Properties of the wire record\<close>

lemma map_of_obj_set: "map_of (obj_set k v ob) = (map_of ob)(k \<mapsto> v)"
  by (induction ob) (auto simp: fun_eq_iff)

lemma map_of_obj_assign: "map_of (obj_assign target source) = map_of target ++ map_of (rev source)"
proof (induction source arbitrary: target)
  case Nil
  then show ?case by simp
next
  case (Cons p source)
  obtain k v where p: "p = (k, v)" by (cases p)
  show ?case
    by (simp add: p Cons.IH map_of_obj_set fun_eq_iff map_add_def split: option.splits)
qed

lemma map_of_rev_distinct: "distinct (map fst xs) \<Longrightarrow> map_of (rev xs) = map_of xs"
  by (subst map_of_inject_set) (simp_all flip: rev_map)

lemma keys_obj_set:
  "map fst (obj_set k v ob) = (if k \<in> set (map fst ob) then map fst ob else map fst ob @ [k])"
  by (induction ob) force+

lemma distinct_obj_set: "distinct (map fst ob) \<Longrightarrow> distinct (map fst (obj_set k v ob))"
  by (simp add: keys_obj_set)

lemma distinct_obj_assign:
  "distinct (map fst target) \<Longrightarrow> distinct (map fst (obj_assign target source))"
  by (induction source arbitrary: target) (auto simp: distinct_obj_set)

lemma map_of_stringify_fields:
  "distinct (map fst ob) \<Longrightarrow>
   map_of (stringify_fields ob) k = (case map_of ob k of Some (Some v) \<Rightarrow> Some v | _ \<Rightarrow> None)"
proof (induction ob rule: stringify_fields.induct)
  case 1
  then show ?case by simp
next
  case (2 k' rest)
  then show ?case
    by (force simp: map_of_eq_None_iff split: option.splits dest: map_of_SomeD)
next
  case (3 k' v rest)
  then show ?case by (auto split: option.splits)
qed

lemma distinct_canonical_fields: "distinct (map fst (canonical_fields cfg event))"
  by (simp add: canonical_fields_def)

lemma map_of_lifted: "map_of (map (\<lambda>(k, v). (k, Some v)) ps) k = map_option Some (map_of ps k)"
  by (induction ps) auto

lemma map_of_formatEvent:
  assumes "properties event = Some props" and "distinct (map fst props)"
  shows "map_of (formatEvent cfg event) k =
           (case map_of props k of Some v \<Rightarrow> Some (Some v)
            | None \<Rightarrow> map_of (canonical_fields cfg event) k)"
proof (cases "props = []")
  case True
  with assms show ?thesis by (simp add: formatEvent_def Object_keys_def)
next
  case False
  have d: "distinct (map fst (map (\<lambda>(k, v). (k, Some v)) props))"
    using assms(2) by (simp add: comp_def case_prod_unfold)
  have "map_of (formatEvent cfg event) k =
          (map_of (canonical_fields cfg event) ++ map_of (map (\<lambda>(k, v). (k, Some v)) props)) k"
    using assms(1) False
    by (simp add: formatEvent_def Object_keys_def Object_assign_def map_of_obj_assign
        map_of_rev_distinct [OF d])
  then show ?thesis
    by (simp add: map_add_def map_of_lifted split: option.splits)
qed

lemma distinct_formatEvent: "distinct (map fst (formatEvent cfg event))"
  by (simp add: formatEvent_def Let_def Object_assign_def distinct_obj_assign
      distinct_canonical_fields split: option.splits)

text \<open>
  Claim C1, as the code has it. \<open>formatPayload\<close> builds the record from the canonical fields
  and then assigns every custom property onto it, so for a key that is both a reserved field
  name and a custom property the wire record carries the custom property's value; a reserved
  field keeps its canonical value exactly when no custom property has its name. The keys of
  a properties object are distinct.
\<close>

theorem custom_property_wins_merge:
  assumes "properties event = Some props" and "distinct (map fst props)"
  shows "map_of (wire_record cfg event) k =
           (case map_of props k of
              Some v \<Rightarrow> Some v
            | None \<Rightarrow> map_of (stringify_fields (canonical_fields cfg event)) k)"
  using assms
  by (simp add: wire_record_def map_of_stringify_fields distinct_formatEvent
      distinct_canonical_fields map_of_formatEvent split: option.splits)

theorem custom_property_wins_merge_witness:
  "map_of (wire_record sample_config
             ((sample_event ''click'')\<lparr>properties := Some [(''click_for'', JStr ''nav-link''),
                                                           (''page_url'', JStr ''about:blank'')]\<rparr>))
          ''page_url'' = Some (JStr ''about:blank'')"
  using custom_property_wins_merge
    [of "(sample_event ''click'')\<lparr>properties := Some [(''click_for'', JStr ''nav-link''),
                                                      (''page_url'', JStr ''about:blank'')]\<rparr>"
        "[(''click_for'', JStr ''nav-link''), (''page_url'', JStr ''about:blank'')]"
        sample_config "''page_url''"]
  by simp

text \<open>
  The claim as the specification words it (the reserved field wins) fails: an event named
  \<open>click\<close> with a custom property \<open>event_name\<close> goes out under the custom value.
\<close>

theorem reserved_field_overwritten_counterexample:
  "''event_name'' \<in> set reserved_fields \<and>
   map_of (wire_record sample_config
             ((sample_event ''click'')\<lparr>properties := Some [(''event_name'', JStr ''spoofed'')]\<rparr>))
          ''event_name'' = Some (JStr ''spoofed'') \<and>
   eventName ((sample_event ''click'')\<lparr>properties := Some [(''event_name'', JStr ''spoofed'')]\<rparr>)
     = ''click''"
  by (simp add: reserved_fields_def wire_record_def formatEvent_def Object_keys_def
      Object_assign_def canonical_fields_def sample_event_def bare_event_def sample_config_def)

section \<open>Properties of the reporter\<close>

lemma sendFetch_cases:
  "sendFetch cfg env events =
     (if \<not> hasAbortController env then Inl OtherError
      else case fetch env (reportUrl cfg) (formatPayload cfg events) of
             Response status \<Rightarrow> Inr (200 \<le> status \<and> status \<le> 299)
           | Rejected error \<Rightarrow> Inr False)"
  by (simp add: sendFetch_def response_ok_def split: fetch_result.splits)

lemma report_returns: "\<exists>success. report cfg env events = Inr success"
  by (auto simp: report_def split: sum.splits)

text \<open>
  Claim C8. \<open>report\<close> always returns a boolean and never an exception, whatever the batch,
  the configured method and the behaviour of the network primitives. For a non-empty batch
  sent by \<open>fetch\<close> (any method but beacon, or beacon without \<open>navigator.sendBeacon\<close>) the
  result is \<open>false\<close> when the controller cannot be created, when the request is rejected
  by a network error or by the timeout's abort, and when the status is outside 200..299, and
  \<open>true\<close> on a 2xx status. Sent by beacon, the result is \<open>false\<close> when the primitive
  throws or refuses the data and \<open>true\<close> when it queues it. An empty batch is reported as
  sent without any network call.
\<close>

theorem report_never_throws:
  "(\<exists>success. report cfg env events = Inr success) \<and>
   (events = [] \<longrightarrow> report cfg env events = Inr True) \<and>
   (events \<noteq> [] \<longrightarrow> (reportMethod cfg \<noteq> Some BEACON \<or> navigator_sendBeacon env = None) \<longrightarrow>
      (\<not> hasAbortController env \<longrightarrow> report cfg env events = Inr False) \<and>
      (hasAbortController env \<longrightarrow>
         (fetch env (reportUrl cfg) (formatPayload cfg events) = Rejected OtherError
              \<longrightarrow> report cfg env events = Inr False) \<and>
         (fetch env (reportUrl cfg) (formatPayload cfg events) = Rejected AbortError
              \<longrightarrow> report cfg env events = Inr False) \<and>
         (\<forall>status. fetch env (reportUrl cfg) (formatPayload cfg events) = Response status
              \<longrightarrow> report cfg env events = Inr (200 \<le> status \<and> status \<le> 299)))) \<and>
   (events \<noteq> [] \<longrightarrow> reportMethod cfg = Some BEACON \<longrightarrow>
      (\<forall>beacon. navigator_sendBeacon env = Some beacon \<longrightarrow>
         (beacon (reportUrl cfg) (formatPayload cfg events) = BeaconThrew
              \<longrightarrow> report cfg env events = Inr False) \<and>
         (beacon (reportUrl cfg) (formatPayload cfg events) = Queued False
              \<longrightarrow> report cfg env events = Inr False) \<and>
         (beacon (reportUrl cfg) (formatPayload cfg events) = Queued True
              \<longrightarrow> report cfg env events = Inr True)))"
proof (intro conjI)
  show "\<exists>success. report cfg env events = Inr success" by (rule report_returns)
  show "events = [] \<longrightarrow> report cfg env events = Inr True" by (simp add: report_def)
  show "events \<noteq> [] \<longrightarrow> (reportMethod cfg \<noteq> Some BEACON \<or> navigator_sendBeacon env = None) \<longrightarrow>
      (\<not> hasAbortController env \<longrightarrow> report cfg env events = Inr False) \<and>
      (hasAbortController env \<longrightarrow>
         (fetch env (reportUrl cfg) (formatPayload cfg events) = Rejected OtherError
              \<longrightarrow> report cfg env events = Inr False) \<and>
         (fetch env (reportUrl cfg) (formatPayload cfg events) = Rejected AbortError
              \<longrightarrow> report cfg env events = Inr False) \<and>
         (\<forall>status. fetch env (reportUrl cfg) (formatPayload cfg events) = Response status
              \<longrightarrow> report cfg env events = Inr (200 \<le> status \<and> status \<le> 299)))"
    by (auto simp: report_def sendBeacon_def sendFetch_cases
        split: option.splits ReportMethod.splits)
  show "events \<noteq> [] \<longrightarrow> reportMethod cfg = Some BEACON \<longrightarrow>
      (\<forall>beacon. navigator_sendBeacon env = Some beacon \<longrightarrow>
         (beacon (reportUrl cfg) (formatPayload cfg events) = BeaconThrew
              \<longrightarrow> report cfg env events = Inr False) \<and>
         (beacon (reportUrl cfg) (formatPayload cfg events) = Queued False
              \<longrightarrow> report cfg env events = Inr False) \<and>
         (beacon (reportUrl cfg) (formatPayload cfg events) = Queued True
              \<longrightarrow> report cfg env events = Inr True))"
    by (simp add: report_def sendBeacon_def)
qed

theorem report_never_throws_witness:
  "report sample_config (sample_net 200) [sample_event ''a''] = Inr True \<and>
   report sample_config (sample_net 503) [sample_event ''a''] = Inr False \<and>
   report sample_config ((sample_net 200)\<lparr>fetch := (\<lambda>url body. Rejected AbortError)\<rparr>)
     [sample_event ''a''] = Inr False \<and>
   report sample_config ((sample_net 200)\<lparr>hasAbortController := False\<rparr>)
     [sample_event ''a''] = Inr False \<and>
   report (sample_config\<lparr>reportMethod := Some BEACON\<rparr>)
     ((sample_net 200)\<lparr>navigator_sendBeacon := Some (\<lambda>url body. Queued False)\<rparr>)
     [sample_event ''a''] = Inr False \<and>
   report (sample_config\<lparr>reportMethod := Some BEACON\<rparr>)
     ((sample_net 200)\<lparr>navigator_sendBeacon := Some (\<lambda>url body. BeaconThrew)\<rparr>)
     [sample_event ''a''] = Inr False"
  using report_never_throws [of sample_config "sample_net 200" "[sample_event ''a'']"]
    report_never_throws [of sample_config "sample_net 503" "[sample_event ''a'']"]
    report_never_throws [of sample_config
      "(sample_net 200)\<lparr>fetch := (\<lambda>url body. Rejected AbortError)\<rparr>" "[sample_event ''a'']"]
    report_never_throws [of sample_config
      "(sample_net 200)\<lparr>hasAbortController := False\<rparr>" "[sample_event ''a'']"]
    report_never_throws [of "sample_config\<lparr>reportMethod := Some BEACON\<rparr>"
      "(sample_net 200)\<lparr>navigator_sendBeacon := Some (\<lambda>url body. Queued False)\<rparr>"
      "[sample_event ''a'']"]
    report_never_throws [of "sample_config\<lparr>reportMethod := Some BEACON\<rparr>"
      "(sample_net 200)\<lparr>navigator_sendBeacon := Some (\<lambda>url body. BeaconThrew)\<rparr>"
      "[sample_event ''a'']"]
  by (simp add: sample_config_def sample_net_def)

section \<open>Properties of page-view deduplication\<close>


lemma pushed_sendEvents [simp]: "pushed (sendEvents s) = pushed s"
  by (simp add: sendEvents_def Let_def)

lemma pushed_scheduleBatchSend [simp]: "pushed (scheduleBatchSend s) = pushed s"
  by (simp add: scheduleBatchSend_def window_setTimeout_def Let_def)

lemma pushed_addToQueue: "pushed (addToQueue event s) = pushed s @ [event]"
  by (simp add: addToQueue_def Let_def)

lemma pushed_trackEvent_initialized:
  "isInitialized s \<Longrightarrow>
   \<exists>fullEvent. pushed (trackEvent b event s) = pushed s @ [fullEvent] \<and>
     eventName fullEvent = eventName event \<and> eventType fullEvent = eventType event \<and>
     timestamp fullEvent = Some (or_num (timestamp event) (now b))"
  by (simp add: trackEvent_def Let_def pushed_addToQueue split: prod.splits)












section \<open>Properties of the durable buffer\<close>

lemma getPendingEvents_savePendingEvents:
  "localStorage sm = Some ls \<Longrightarrow>
   getPendingEvents (savePendingEvents events sm) = getPendingEvents sm @ events"
  by (simp add: savePendingEvents_def getPendingEvents_def setItem_def getItem_def Let_def)

lemma localStorage_savePendingEvents:
  "localStorage sm = Some ls \<Longrightarrow> \<exists>ls'. localStorage (savePendingEvents events sm) = Some ls'"
  by (simp add: savePendingEvents_def setItem_def Let_def)

lemma getPendingEvents_clearPendingEvents: "getPendingEvents (clearPendingEvents sm) = []"
  by (simp add: clearPendingEvents_def removeItem_def getPendingEvents_def getItem_def
      split: option.splits)

section \<open>Properties of the pipeline\<close>

lemma sendEvents_empty: "eventQueue s = [] \<Longrightarrow> sendEvents s = s"
  by (simp add: sendEvents_def)

lemma sendEvents_nonempty:
  "eventQueue s \<noteq> [] \<Longrightarrow>
   sendEvents s = s\<lparr>eventQueue := [],
                    handedToReporter := handedToReporter s @ [eventQueue s],
                    inFlight := inFlight s @ [eventQueue s]\<rparr>"
  by (simp add: sendEvents_def Let_def)

lemma eventQueue_sendEvents [simp]: "eventQueue (sendEvents s) = []"
  by (simp add: sendEvents_def Let_def)

lemma savePendingEvents_available:
  "localStorage sm = Some ls \<Longrightarrow>
   localStorage (savePendingEvents events sm)
     = Some (ls\<lparr>argos_pending_events := Some (EventsJSON (getPendingEvents sm @ events))\<rparr>)"
  by (simp add: savePendingEvents_def setItem_def Let_def)

lemma savePendingEvents_unavailable:
  "localStorage sm = None \<Longrightarrow> savePendingEvents events sm = sm"
  by (simp add: savePendingEvents_def setItem_def Let_def)

text \<open>
  Claim C4, as the code has it. When the reporter's promise resolves to \<open>false\<close> for a
  batch, the continuation of \<open>sendEvents\<close> saves the batch and does nothing else: the
  queue and the history of batches handed to a reporter are untouched, so the attempt
  acknowledges nothing as delivered and neither re-queues nor re-sends an event. With a
  store that is available the persisted overflow afterwards is the overflow before followed
  by the whole batch in its order. With a store that is missing or faulting the write
  degrades to doing nothing and the state is left as it was.
\<close>

theorem failed_delivery_rebuffers:
  assumes "report (config s) env batch = Inr False"
  shows "(\<forall>ls. localStorage (storage s) = Some ls \<longrightarrow>
            getPendingEvents (storage (sendEvents_settle env batch s))
              = getPendingEvents (storage s) @ batch \<and>
            localStorage (storage (sendEvents_settle env batch s))
              = Some (ls\<lparr>argos_pending_events :=
                          Some (EventsJSON (getPendingEvents (storage s) @ batch))\<rparr>)) \<and>
         (localStorage (storage s) = None \<longrightarrow> sendEvents_settle env batch s = s) \<and>
         eventQueue (sendEvents_settle env batch s) = eventQueue s \<and>
         handedToReporter (sendEvents_settle env batch s) = handedToReporter s \<and>
         inFlight (sendEvents_settle env batch s) = inFlight s \<and>
         beaconSends (sendEvents_settle env batch s) = beaconSends s"
  using assms
  by (simp add: sendEvents_settle_def getPendingEvents_savePendingEvents
      savePendingEvents_available savePendingEvents_unavailable)

lemma sample_tracker_fields [simp]:
  "config (sample_tracker queue ls) = with_DEFAULT_CONFIG sample_config"
  "localStorage (storage (sample_tracker queue ls)) = ls"
  "eventQueue (sample_tracker queue ls) = queue"
  "batchTimer (sample_tracker queue ls) = None"
  "timers (sample_tracker queue ls) = []"
  "lastTimerId (sample_tracker queue ls) = 0"
  "handedToReporter (sample_tracker queue ls) = []"
  "inFlight (sample_tracker queue ls) = []"
  "beaconSends (sample_tracker queue ls) = []"
  "pushed (sample_tracker queue ls) = queue"
  by (simp_all add: sample_tracker_def)

lemma sample_config_fields [simp]:
  "reportMethod (with_DEFAULT_CONFIG sample_config) = Some BATCH"
  "batchSize (with_DEFAULT_CONFIG sample_config) = Some 3"
  "batchInterval (with_DEFAULT_CONFIG sample_config) = Some 1000"
  by (simp_all add: with_DEFAULT_CONFIG_def sample_config_def or_default_def)

lemma report_sample_net:
  "events \<noteq> [] \<Longrightarrow>
   report (with_DEFAULT_CONFIG sample_config) (sample_net status) events
     = Inr (200 \<le> status \<and> status \<le> 299)"
  by (simp add: report_def sendFetch_def sample_net_def response_ok_def)

theorem failed_delivery_rebuffers_witness:
  "getPendingEvents
     (storage
        (sendEvents_settle (sample_net 503) [sample_event ''c'', sample_event ''d'']
           (sample_tracker [] (Some (sample_storage [sample_event ''a''])))))
   = [sample_event ''a'', sample_event ''c'', sample_event ''d'']"
proof -
  let ?s = "sample_tracker [] (Some (sample_storage [sample_event ''a'']))"
  have a: "report (config ?s) (sample_net 503) [sample_event ''c'', sample_event ''d''] = Inr False"
    by (simp add: report_sample_net)
  have b: "localStorage (storage ?s) = Some (sample_storage [sample_event ''a''])"
    by simp
  have c: "getPendingEvents (storage ?s) = [sample_event ''a'']"
    by (simp add: getPendingEvents_def getItem_def sample_storage_def)
  from failed_delivery_rebuffers [OF a] b
  have "getPendingEvents
          (storage (sendEvents_settle (sample_net 503) [sample_event ''c'', sample_event ''d''] ?s))
        = getPendingEvents (storage ?s) @ [sample_event ''c'', sample_event ''d'']"
    by blast
  then show ?thesis by (simp add: c)
qed

text \<open>
  The claim as worded holds for every failed batch. Without an available store it fails:
  the attempt reports failure and the overflow stays empty.
\<close>

theorem failed_delivery_without_store_counterexample:
  "report (config (sample_tracker [] None)) (sample_net 503) [sample_event ''c''] = Inr False \<and>
   getPendingEvents
     (storage (sendEvents_settle (sample_net 503) [sample_event ''c''] (sample_tracker [] None)))
   = []"
  by (simp add: report_sample_net sendEvents_settle_def savePendingEvents_def setItem_def
      getPendingEvents_def getItem_def)

lemma handleBeforeUnload_nonempty:
  "eventQueue s \<noteq> [] \<Longrightarrow>
   handleBeforeUnload env s =
     s\<lparr>beaconSends := beaconSends s @
          [(eventQueue s, report ((config s)\<lparr>reportMethod := Some BEACON\<rparr>) env (eventQueue s))],
       storage := savePendingEvents (eventQueue s) (storage s)\<rparr>"
  by (simp add: handleBeforeUnload_def Let_def)

lemma handleBeforeUnload_empty: "eventQueue s = [] \<Longrightarrow> handleBeforeUnload env s = s"
  by (simp add: handleBeforeUnload_def)

lemma handleBeforeUnload_frame [simp]:
  "eventQueue (handleBeforeUnload env s) = eventQueue s"
  "pushed (handleBeforeUnload env s) = pushed s"
  "handedToReporter (handleBeforeUnload env s) = handedToReporter s"
  "inFlight (handleBeforeUnload env s) = inFlight s"
  "timers (handleBeforeUnload env s) = timers s"
  "lastTimerId (handleBeforeUnload env s) = lastTimerId s"
  "batchTimer (handleBeforeUnload env s) = batchTimer s"
  "config (handleBeforeUnload env s) = config s"
  "isInitialized (handleBeforeUnload env s) = isInitialized s"
  by (simp_all add: handleBeforeUnload_def Let_def)

text \<open>
  Claim C7. On the teardown signal with a non-empty queue the handler passes the queue's
  contents to a reporter in beacon mode and saves the same events: the store receives
  \<open>savePendingEvents\<close> of the queue whatever the network does and whatever the reporter
  returns, and with an available store the persisted overflow grows by exactly the queue.
  The queue itself stays as it was. With an empty queue the handler does nothing.
\<close>

theorem teardown_sends_and_buffers:
  "(eventQueue s \<noteq> [] \<longrightarrow>
      beaconSends (handleBeforeUnload env s) =
        beaconSends s @
          [(eventQueue s, report ((config s)\<lparr>reportMethod := Some BEACON\<rparr>) env (eventQueue s))] \<and>
      storage (handleBeforeUnload env s) = savePendingEvents (eventQueue s) (storage s) \<and>
      storage (handleBeforeUnload env s) = storage (handleBeforeUnload env' s) \<and>
      (\<forall>ls. localStorage (storage s) = Some ls \<longrightarrow>
         getPendingEvents (storage (handleBeforeUnload env s))
           = getPendingEvents (storage s) @ eventQueue s) \<and>
      eventQueue (handleBeforeUnload env s) = eventQueue s) \<and>
   (eventQueue s = [] \<longrightarrow> handleBeforeUnload env s = s)"
  by (simp add: handleBeforeUnload_nonempty handleBeforeUnload_empty
      getPendingEvents_savePendingEvents)

theorem teardown_sends_and_buffers_witness:
  "beaconSends (handleBeforeUnload (sample_net 200)
      (sample_tracker [sample_event ''a'', sample_event ''b''] (Some (sample_storage []))))
     = [([sample_event ''a'', sample_event ''b''], Inr True)] \<and>
   getPendingEvents (storage (handleBeforeUnload (sample_net 200)
      (sample_tracker [sample_event ''a'', sample_event ''b''] (Some (sample_storage [])))))
     = [sample_event ''a'', sample_event ''b''] \<and>
   getPendingEvents (storage (handleBeforeUnload
      ((sample_net 200)\<lparr>navigator_sendBeacon := Some (\<lambda>url body. Queued False)\<rparr>)
      (sample_tracker [sample_event ''a'', sample_event ''b''] (Some (sample_storage [])))))
     = [sample_event ''a'', sample_event ''b'']"
proof -
  let ?s = "sample_tracker [sample_event ''a'', sample_event ''b''] (Some (sample_storage []))"
  let ?bad = "(sample_net 200)\<lparr>navigator_sendBeacon := Some (\<lambda>url body. Queued False)\<rparr>"
  have q: "eventQueue ?s \<noteq> []" by simp
  have st: "localStorage (storage ?s) = Some (sample_storage [])" by simp
  have old: "getPendingEvents (storage ?s) = []"
    by (simp add: getPendingEvents_def getItem_def sample_storage_def)
  have r: "report ((with_DEFAULT_CONFIG sample_config)\<lparr>reportMethod := Some BEACON\<rparr>)
             (sample_net 200) [sample_event ''a'', sample_event ''b''] = Inr True"
    by (simp add: report_def sendBeacon_def sample_net_def)
  from teardown_sends_and_buffers [of ?s "sample_net 200" ?bad] q st
  have "beaconSends (handleBeforeUnload (sample_net 200) ?s) =
          beaconSends ?s @ [(eventQueue ?s,
             report ((config ?s)\<lparr>reportMethod := Some BEACON\<rparr>) (sample_net 200) (eventQueue ?s))]"
    and "getPendingEvents (storage (handleBeforeUnload (sample_net 200) ?s))
          = getPendingEvents (storage ?s) @ eventQueue ?s"
    and "storage (handleBeforeUnload (sample_net 200) ?s) = storage (handleBeforeUnload ?bad ?s)"
    by blast+
  then show ?thesis by (simp add: r old)
qed

text \<open>
  Claim C10. The teardown handler changes neither the queue nor the timers nor the history
  of flushes. So when the page survives the signal, the next \<open>sendEvents\<close> hands the very
  same events to the reporter again, although the handler has already passed them to its
  beacon reporter and, with an available store, appended them to the persisted overflow.
\<close>

theorem teardown_keeps_queue:
  "eventQueue (handleBeforeUnload env s) = eventQueue s \<and>
   timers (handleBeforeUnload env s) = timers s \<and>
   batchTimer (handleBeforeUnload env s) = batchTimer s \<and>
   handedToReporter (handleBeforeUnload env s) = handedToReporter s \<and>
   (eventQueue s \<noteq> [] \<longrightarrow>
      fst (last (beaconSends (handleBeforeUnload env s))) = eventQueue s \<and>
      handedToReporter (sendEvents (handleBeforeUnload env s))
        = handedToReporter s @ [eventQueue s] \<and>
      (\<forall>ls. localStorage (storage s) = Some ls \<longrightarrow>
         getPendingEvents (storage (sendEvents (handleBeforeUnload env s)))
           = getPendingEvents (storage s) @ eventQueue s))"
  by (simp add: handleBeforeUnload_nonempty sendEvents_nonempty
      getPendingEvents_savePendingEvents)

theorem teardown_keeps_queue_witness:
  "eventQueue (handleBeforeUnload (sample_net 200)
      (sample_tracker [sample_event ''a'', sample_event ''b''] (Some (sample_storage []))))
     = [sample_event ''a'', sample_event ''b''] \<and>
   handedToReporter (sendEvents (handleBeforeUnload (sample_net 200)
      (sample_tracker [sample_event ''a'', sample_event ''b''] (Some (sample_storage [])))))
     = [[sample_event ''a'', sample_event ''b'']] \<and>
   getPendingEvents (storage (sendEvents (handleBeforeUnload (sample_net 200)
      (sample_tracker [sample_event ''a'', sample_event ''b''] (Some (sample_storage []))))))
     = [sample_event ''a'', sample_event ''b'']"
proof -
  let ?s = "sample_tracker [sample_event ''a'', sample_event ''b''] (Some (sample_storage []))"
  have q: "eventQueue ?s \<noteq> []" by simp
  have st: "localStorage (storage ?s) = Some (sample_storage [])" by simp
  have old: "getPendingEvents (storage ?s) = []"
    by (simp add: getPendingEvents_def getItem_def sample_storage_def)
  from teardown_keeps_queue [of "sample_net 200" ?s] q st
  have "eventQueue (handleBeforeUnload (sample_net 200) ?s) = eventQueue ?s"
    and "handedToReporter (sendEvents (handleBeforeUnload (sample_net 200) ?s))
          = handedToReporter ?s @ [eventQueue ?s]"
    and "getPendingEvents (storage (sendEvents (handleBeforeUnload (sample_net 200) ?s)))
          = getPendingEvents (storage ?s) @ eventQueue ?s"
    by blast+
  then show ?thesis by (simp add: old)
qed

lemma addToQueue_batch_below:
  assumes "reportMethod (config s) = Some BATCH"
    and "int (length (eventQueue s)) + 1 < or_num (batchSize (config s)) 10"
  shows "addToQueue event s =
           scheduleBatchSend (s\<lparr>eventQueue := eventQueue s @ [event], pushed := pushed s @ [event]\<rparr>)"
  using assms by (simp add: addToQueue_def Let_def)

lemma addToQueue_batch_reached:
  assumes "reportMethod (config s) = Some BATCH"
    and "int (length (eventQueue s)) + 1 \<ge> or_num (batchSize (config s)) 10"
  shows "addToQueue event s =
           sendEvents (s\<lparr>eventQueue := eventQueue s @ [event], pushed := pushed s @ [event]\<rparr>)"
  using assms by (simp add: addToQueue_def Let_def)

lemma scheduleBatchSend_armed: "timer_armed (batchTimer s) \<Longrightarrow> scheduleBatchSend s = s"
  by (simp add: scheduleBatchSend_def)

lemma scheduleBatchSend_unarmed:
  "\<not> timer_armed (batchTimer s) \<Longrightarrow>
   scheduleBatchSend s =
     s\<lparr>timers := timers s @ [(Suc (lastTimerId s), or_num (batchInterval (config s)) 5000,
                                BatchSendCallback)],
       lastTimerId := Suc (lastTimerId s),
       batchTimer := Some (Suc (lastTimerId s))\<rparr>"
  by (simp add: scheduleBatchSend_def window_setTimeout_def Let_def)

lemma timer_fires_empty_queue:
  assumes "eventQueue s = []"
  shows "handedToReporter (timer_fires h s) = handedToReporter s \<and>
         inFlight (timer_fires h s) = inFlight s \<and>
         storage (timer_fires h s) = storage s \<and>
         beaconSends (timer_fires h s) = beaconSends s \<and>
         eventQueue (timer_fires h s) = []"
  using assms
  by (simp add: timer_fires_def clearTimeout_def sendEvents_def Let_def
      split: option.splits prod.splits timer_callback.splits)

text \<open>
  Claim C5. In batch mode with batch size 3, starting from an empty queue with no timer
  armed: the first two enqueues hand nothing to the reporter and leave one timer armed; the
  third hands over one batch, exactly the three events in enqueue order, and writes nothing
  to the store. Whatever timer fires afterwards finds the queue empty and does nothing:
  no batch is handed over, no request is started, the store is not written.
\<close>

theorem batch_size_trigger:
  assumes "reportMethod (config s) = Some BATCH" and "batchSize (config s) = Some 3"
    and "eventQueue s = []" and "\<not> timer_armed (batchTimer s)"
  shows "let s2 = addToQueue e2 (addToQueue e1 s);
             s3 = addToQueue e3 s2;
             s4 = timer_fires h s3
         in handedToReporter s2 = handedToReporter s \<and>
            timers s2 = timers s @ [(Suc (lastTimerId s),
                                     or_num (batchInterval (config s)) 5000, BatchSendCallback)] \<and>
            handedToReporter s3 = handedToReporter s @ [[e1, e2, e3]] \<and>
            inFlight s3 = inFlight s @ [[e1, e2, e3]] \<and>
            eventQueue s3 = [] \<and> timers s3 = timers s2 \<and> storage s3 = storage s \<and>
            handedToReporter s4 = handedToReporter s3 \<and> inFlight s4 = inFlight s3 \<and>
            storage s4 = storage s3 \<and> beaconSends s4 = beaconSends s \<and> eventQueue s4 = []"
proof -
  define s1 where "s1 = addToQueue e1 s"
  define s2 where "s2 = addToQueue e2 s1"
  define s3 where "s3 = addToQueue e3 s2"
  have s1: "s1 = s\<lparr>eventQueue := [e1], pushed := pushed s @ [e1],
                   timers := timers s @ [(Suc (lastTimerId s),
                                or_num (batchInterval (config s)) 5000, BatchSendCallback)],
                   lastTimerId := Suc (lastTimerId s),
                   batchTimer := Some (Suc (lastTimerId s))\<rparr>"
    unfolding s1_def using assms
    by (simp add: addToQueue_batch_below or_num_def scheduleBatchSend_unarmed)
  have s2: "s2 = s1\<lparr>eventQueue := [e1, e2], pushed := pushed s1 @ [e2]\<rparr>"
    unfolding s2_def using assms
    by (simp add: s1 addToQueue_batch_below or_num_def scheduleBatchSend_armed timer_armed_def)
  have s3: "s3 = s2\<lparr>eventQueue := [], pushed := pushed s2 @ [e3],
                    handedToReporter := handedToReporter s2 @ [[e1, e2, e3]],
                    inFlight := inFlight s2 @ [[e1, e2, e3]]\<rparr>"
    unfolding s3_def using assms
    by (simp add: s2 s1 addToQueue_batch_reached or_num_def sendEvents_nonempty)
  have q3: "eventQueue s3 = []" by (simp add: s3)
  have "handedToReporter s2 = handedToReporter s \<and>
        timers s2 = timers s @ [(Suc (lastTimerId s),
                                 or_num (batchInterval (config s)) 5000, BatchSendCallback)] \<and>
        handedToReporter s3 = handedToReporter s @ [[e1, e2, e3]] \<and>
        inFlight s3 = inFlight s @ [[e1, e2, e3]] \<and>
        eventQueue s3 = [] \<and> timers s3 = timers s2 \<and> storage s3 = storage s \<and>
        beaconSends s3 = beaconSends s"
    by (simp add: s3 s2 s1)
  with timer_fires_empty_queue [OF q3, of h] show ?thesis
    by (simp add: Let_def s1_def s2_def s3_def)
qed

theorem batch_size_trigger_witness:
  "handedToReporter
     (addToQueue (sample_event ''c'')
        (addToQueue (sample_event ''b'')
           (addToQueue (sample_event ''a'') (sample_tracker [] (Some (sample_storage []))))))
     = [[sample_event ''a'', sample_event ''b'', sample_event ''c'']] \<and>
   handedToReporter
     (timer_fires 1
        (addToQueue (sample_event ''c'')
           (addToQueue (sample_event ''b'')
              (addToQueue (sample_event ''a'') (sample_tracker [] (Some (sample_storage [])))))))
     = [[sample_event ''a'', sample_event ''b'', sample_event ''c'']]"
proof -
  let ?s = "sample_tracker [] (Some (sample_storage []))"
  have a: "reportMethod (config ?s) = Some BATCH" "batchSize (config ?s) = Some 3"
    "eventQueue ?s = []" "\<not> timer_armed (batchTimer ?s)"
    by (simp_all add: timer_armed_def)
  from batch_size_trigger [OF a, of "sample_event ''b''" "sample_event ''a''" "sample_event ''c''" 1]
  show ?thesis by (simp add: Let_def)
qed

section \<open>Nothing is lost or duplicated between queue and reporter\<close>

lemma conserved_iff:
  "conserved s s' \<longleftrightarrow>
     (\<exists>new batches. pushed s' = pushed s @ new \<and>
        handedToReporter s' = handedToReporter s @ batches \<and>
        concat batches @ eventQueue s' = eventQueue s @ new)"
proof
  assume c: "conserved s s'"
  let ?new = "drop (length (pushed s)) (pushed s')"
  let ?batches = "drop (length (handedToReporter s)) (handedToReporter s')"
  have "pushed s' = pushed s @ ?new"
    using c by (metis append_take_drop_id conserved_def)
  moreover have "handedToReporter s' = handedToReporter s @ ?batches"
    using c by (metis append_take_drop_id conserved_def)
  moreover have "concat ?batches @ eventQueue s' = eventQueue s @ ?new"
    using c by (simp add: conserved_def)
  ultimately show "\<exists>new batches. pushed s' = pushed s @ new \<and>
        handedToReporter s' = handedToReporter s @ batches \<and>
        concat batches @ eventQueue s' = eventQueue s @ new"
    by blast
next
  assume "\<exists>new batches. pushed s' = pushed s @ new \<and>
        handedToReporter s' = handedToReporter s @ batches \<and>
        concat batches @ eventQueue s' = eventQueue s @ new"
  then show "conserved s s'" by (auto simp: conserved_def)
qed

lemma conservedI:
  "pushed s' = pushed s @ new \<Longrightarrow> handedToReporter s' = handedToReporter s @ batches \<Longrightarrow>
   concat batches @ eventQueue s' = eventQueue s @ new \<Longrightarrow> conserved s s'"
  unfolding conserved_iff by blast

lemma conserved_refl: "conserved s s"
  by (rule conservedI [of _ _ "[]" "[]"]) simp_all

lemma conserved_same:
  "pushed s' = pushed s \<Longrightarrow> handedToReporter s' = handedToReporter s \<Longrightarrow>
   eventQueue s' = eventQueue s \<Longrightarrow> conserved s s'"
  by (rule conservedI [of _ _ "[]" "[]"]) simp_all

lemma conserved_trans:
  assumes "conserved s s1" and "conserved s1 s2"
  shows "conserved s s2"
proof -
  from assms(1) obtain n1 b1 where 1: "pushed s1 = pushed s @ n1"
    "handedToReporter s1 = handedToReporter s @ b1" "concat b1 @ eventQueue s1 = eventQueue s @ n1"
    unfolding conserved_iff by blast
  from assms(2) obtain n2 b2 where 2: "pushed s2 = pushed s1 @ n2"
    "handedToReporter s2 = handedToReporter s1 @ b2" "concat b2 @ eventQueue s2 = eventQueue s1 @ n2"
    unfolding conserved_iff by blast
  have "concat (b1 @ b2) @ eventQueue s2 = concat b1 @ (concat b2 @ eventQueue s2)" by simp
  also have "\<dots> = (concat b1 @ eventQueue s1) @ n2" by (simp add: 2(3))
  also have "\<dots> = eventQueue s @ (n1 @ n2)" by (simp add: 1(3))
  finally show ?thesis
    by (intro conservedI [of _ _ "n1 @ n2" "b1 @ b2"]) (simp_all add: 1 2)
qed

lemma conserved_from_same:
  "pushed s0 = pushed s \<Longrightarrow> handedToReporter s0 = handedToReporter s \<Longrightarrow>
   eventQueue s0 = eventQueue s \<Longrightarrow> conserved s0 s' \<Longrightarrow> conserved s s'"
  by (simp add: conserved_def)

lemma sendEvents_conserved: "conserved s (sendEvents s)"
proof (cases "eventQueue s = []")
  case True
  then show ?thesis by (simp add: sendEvents_empty conserved_refl)
next
  case False
  then show ?thesis
    by (intro conservedI [of _ _ "[]" "[eventQueue s]"]) (simp_all add: sendEvents_nonempty)
qed

lemma scheduleBatchSend_frame [simp]:
  "eventQueue (scheduleBatchSend s) = eventQueue s"
  "handedToReporter (scheduleBatchSend s) = handedToReporter s"
  "inFlight (scheduleBatchSend s) = inFlight s"
  "storage (scheduleBatchSend s) = storage s"
  "config (scheduleBatchSend s) = config s"
  "isInitialized (scheduleBatchSend s) = isInitialized s"
  by (simp_all add: scheduleBatchSend_def window_setTimeout_def Let_def)

lemma cancelBatchTimer_frame [simp]:
  "eventQueue (cancelBatchTimer s) = eventQueue s"
  "pushed (cancelBatchTimer s) = pushed s"
  "handedToReporter (cancelBatchTimer s) = handedToReporter s"
  "inFlight (cancelBatchTimer s) = inFlight s"
  "storage (cancelBatchTimer s) = storage s"
  "config (cancelBatchTimer s) = config s"
  "lastTimerId (cancelBatchTimer s) = lastTimerId s"
  by (simp_all add: cancelBatchTimer_def clearTimeout_def split: option.splits)

lemma clearTimeout_frame [simp]:
  "eventQueue (clearTimeout h s) = eventQueue s"
  "pushed (clearTimeout h s) = pushed s"
  "handedToReporter (clearTimeout h s) = handedToReporter s"
  "inFlight (clearTimeout h s) = inFlight s"
  "storage (clearTimeout h s) = storage s"
  "config (clearTimeout h s) = config s"
  "lastTimerId (clearTimeout h s) = lastTimerId s"
  "batchTimer (clearTimeout h s) = batchTimer s"
  "timers (clearTimeout h s) = filter (\<lambda>t. fst t \<noteq> h) (timers s)"
  by (simp_all add: clearTimeout_def)

lemma sendEvents_frame [simp]:
  "timers (sendEvents s) = timers s"
  "lastTimerId (sendEvents s) = lastTimerId s"
  "batchTimer (sendEvents s) = batchTimer s"
  "storage (sendEvents s) = storage s"
  "config (sendEvents s) = config s"
  "isInitialized (sendEvents s) = isInitialized s"
  "beaconSends (sendEvents s) = beaconSends s"
  by (simp_all add: sendEvents_def Let_def)

lemma sendEvents_settle_frame [simp]:
  "eventQueue (sendEvents_settle env batch s) = eventQueue s"
  "pushed (sendEvents_settle env batch s) = pushed s"
  "handedToReporter (sendEvents_settle env batch s) = handedToReporter s"
  "inFlight (sendEvents_settle env batch s) = inFlight s"
  "timers (sendEvents_settle env batch s) = timers s"
  "lastTimerId (sendEvents_settle env batch s) = lastTimerId s"
  "batchTimer (sendEvents_settle env batch s) = batchTimer s"
  "config (sendEvents_settle env batch s) = config s"
  by (simp_all add: sendEvents_settle_def split: sum.splits)

lemma addToQueue_conserved: "conserved s (addToQueue event s)"
proof -
  let ?s1 = "s\<lparr>eventQueue := eventQueue s @ [event], pushed := pushed s @ [event]\<rparr>"
  have a: "conserved s ?s1"
    by (intro conservedI [of _ _ "[event]" "[]"]) simp_all
  have b: "conserved ?s1 (sendEvents ?s1)" by (rule sendEvents_conserved)
  have c: "conserved ?s1 (scheduleBatchSend ?s1)" by (rule conserved_same) simp_all
  show ?thesis
    using conserved_trans [OF a b] conserved_trans [OF a c] a
    by (simp add: addToQueue_def Let_def)
qed

lemma trackEvent_conserved: "conserved s (trackEvent b event s)"
proof (cases "isInitialized s")
  case False
  then show ?thesis by (simp add: trackEvent_def conserved_refl)
next
  case True
  obtain uid sm where u: "(if truthy_str (userId event) then (userId event, storage s)
                            else getUserId (storage s)) = (uid, sm)"
    by (cases "(if truthy_str (userId event) then (userId event, storage s)
                else getUserId (storage s))")
  have "conserved (s\<lparr>storage := sm\<rparr>) (addToQueue e (s\<lparr>storage := sm\<rparr>))" for e
    by (rule addToQueue_conserved)
  then have "conserved s (addToQueue e (s\<lparr>storage := sm\<rparr>))" for e
    by (rule conserved_from_same [rotated 3]) simp_all
  then show ?thesis
    using True u by (simp add: trackEvent_def Let_def)
qed

lemma trackPageView_conserved: "conserved s (trackPageView b props s)"
  by (simp add: trackPageView_def Let_def trackEvent_conserved)

lemma conserved_to_same:
  "conserved s s1 \<Longrightarrow> pushed s2 = pushed s1 \<Longrightarrow> handedToReporter s2 = handedToReporter s1 \<Longrightarrow>
   eventQueue s2 = eventQueue s1 \<Longrightarrow> conserved s s2"
  by (simp add: conserved_def)

lemma history_change_conserved: "conserved s (history_change b s)"
proof (cases "isCollecting (collector s) \<and> autoTrackPageView (config s) = Some True")
  case False
  then show ?thesis by (auto simp: history_change_def conserved_refl)
next
  case True
  obtain c created where cc: "collector_trackPageView b (collector s) = (c, created)"
    by (cases "collector_trackPageView b (collector s)")
  let ?s1 = "s\<lparr>collector := c\<rparr>"
  let ?s2 = "case created of None \<Rightarrow> ?s1 | Some event \<Rightarrow> handleAutoEvent b event ?s1"
  have "conserved ?s1 ?s2"
    by (simp add: handleAutoEvent_def trackEvent_conserved conserved_refl split: option.splits)
  then have "conserved s ?s2"
    by (rule conserved_from_same [rotated 3]) simp_all
  then have "conserved s (?s2\<lparr>collector := (collector ?s2)\<lparr>pageStartTime := now b\<rparr>\<rparr>)"
    by (rule conserved_to_same) simp_all
  then show ?thesis
    using True cc by (simp add: history_change_def Let_def)
qed

lemma flush_conserved: "conserved s (flush s)"
proof -
  have "conserved (cancelBatchTimer s) (sendEvents (cancelBatchTimer s))"
    by (rule sendEvents_conserved)
  then show ?thesis
    unfolding flush_def by (rule conserved_from_same [rotated 3]) simp_all
qed

lemma destroy_conserved: "conserved s (destroy s)"
proof -
  let ?s2 = "cancelBatchTimer (s\<lparr>collector := collector_stop (collector s)\<rparr>)"
  have "conserved ?s2 (flush ?s2)" by (rule flush_conserved)
  then have "conserved s (flush ?s2)"
    by (rule conserved_from_same [rotated 3]) simp_all
  then have "conserved s ((flush ?s2)\<lparr>isInitialized := False\<rparr>)"
    by (rule conserved_to_same) simp_all
  then show ?thesis by (simp add: destroy_def Let_def)
qed

lemma timer_fires_conserved: "conserved s (timer_fires h s)"
proof (cases "find (\<lambda>t. fst t = h) (timers s)")
  case None
  then show ?thesis by (simp add: timer_fires_def conserved_refl)
next
  case (Some t)
  obtain h' delay callback where t: "t = (h', delay, callback)" by (cases t)
  have "conserved (clearTimeout h s) (sendEvents (clearTimeout h s))"
    by (rule sendEvents_conserved)
  then have a: "conserved s (sendEvents (clearTimeout h s))"
    by (rule conserved_from_same [rotated 3]) simp_all
  then have b: "conserved s ((sendEvents (clearTimeout h s))\<lparr>batchTimer := None\<rparr>)"
    by (rule conserved_to_same) simp_all
  show ?thesis
    using Some t a b by (simp add: timer_fires_def Let_def split: timer_callback.splits)
qed

lemma report_settles_conserved: "conserved s (report_settles i env s)"
  by (simp add: report_settles_def conserved_refl conserved_same)

lemma handleBeforeUnload_conserved: "conserved s (handleBeforeUnload env s)"
  by (simp add: conserved_same)

lemma step_conserved: "conserved s (step a s)"
  by (cases a)
    (simp_all add: trackEvent_conserved trackPageView_conserved history_change_conserved
      flush_conserved destroy_conserved timer_fires_conserved report_settles_conserved
      handleBeforeUnload_conserved)

lemma run_conserved: "conserved s (run as s)"
proof (induction as arbitrary: s)
  case Nil
  then show ?case by (simp add: conserved_refl)
next
  case (Cons a as)
  have "conserved s (step a s)" by (rule step_conserved)
  moreover have "conserved (step a s) (run as (step a s))" by (rule Cons.IH)
  ultimately show ?case by (simp add: conserved_trans)
qed

section \<open>The deferred-flush timer\<close>

lemma timers_in_order_same:
  "timers s' = timers s \<Longrightarrow> lastTimerId s' = lastTimerId s \<Longrightarrow> batchTimer s' = batchTimer s \<Longrightarrow>
   timers_in_order s' = timers_in_order s"
  by (simp add: timers_in_order_def batch_timers_def)

lemma armed_handle_unarmed: "\<not> timer_armed t \<Longrightarrow> armed_handle t = []"
  by (simp add: timer_armed_def armed_handle_def split: option.splits)

lemma list_all_le_Suc:
  "list_all (\<lambda>t. fst t \<le> n) ts \<Longrightarrow> list_all (\<lambda>t. fst t \<le> Suc n) ts"
  by (induction ts) auto

lemma fresh_handle: "list_all (\<lambda>t. fst t \<le> n) ts \<Longrightarrow> Suc n \<notin> fst ` set ts"
  by (induction ts) auto

lemma scheduleBatchSend_in_order:
  assumes "timers_in_order s"
  shows "timers_in_order (scheduleBatchSend s)"
proof (cases "timer_armed (batchTimer s)")
  case True
  with assms show ?thesis by (simp add: scheduleBatchSend_armed)
next
  case False
  with assms show ?thesis
    by (simp add: scheduleBatchSend_unarmed timers_in_order_def batch_timers_def
        armed_handle_unarmed list_all_le_Suc fresh_handle)
      (simp add: armed_handle_def)
qed

lemma filter_other_handle:
  "distinct (map fst ts) \<Longrightarrow> map fst (filter P ts) = [h] \<Longrightarrow>
   filter P (filter (\<lambda>t. fst t \<noteq> h) ts) = []"
proof (induction ts)
  case Nil
  then show ?case by simp
next
  case (Cons t ts)
  show ?case
  proof (cases "P t")
    case True
    with Cons.prems(2) have t: "fst t = h" and rest: "filter P ts = []" by auto
    from rest have "filter P (filter (\<lambda>t. fst t \<noteq> h) ts) = []"
      by (simp add: filter_empty_conv)
    with t show ?thesis by simp
  next
    case False
    with Cons show ?thesis by simp
  qed
qed

lemma clearTimeout_keeps_bounds:
  "distinct (map fst ts) \<Longrightarrow> distinct (map fst (filter (\<lambda>t. fst t \<noteq> h) ts))"
  "list_all (\<lambda>t. fst t \<le> n) ts \<Longrightarrow> list_all (\<lambda>t. fst t \<le> n) (filter (\<lambda>t. fst t \<noteq> h) ts)"
  by (simp_all add: distinct_map_filter list_all_iff)

lemma cancelBatchTimer_in_order:
  assumes "timers_in_order s"
  shows "timers_in_order (cancelBatchTimer s)"
proof (cases "timer_armed (batchTimer s)")
  case False
  then have "cancelBatchTimer s = s"
    by (simp add: cancelBatchTimer_def timer_armed_def split: option.splits)
  with assms show ?thesis by simp
next
  case True
  then obtain h where h: "batchTimer s = Some h" "h \<noteq> 0"
    by (auto simp: timer_armed_def split: option.splits)
  from assms h have b: "map fst (filter (\<lambda>t. snd (snd t) = BatchSendCallback) (timers s)) = [h]"
    by (simp add: timers_in_order_def batch_timers_def armed_handle_def)
  from assms have d: "distinct (map fst (timers s))"
    and l: "list_all (\<lambda>t. fst t \<le> lastTimerId s) (timers s)"
    by (simp_all add: timers_in_order_def)
  show ?thesis
    using h filter_other_handle [OF d b] clearTimeout_keeps_bounds(1) [OF d]
      clearTimeout_keeps_bounds(2) [OF l]
    by (simp add: cancelBatchTimer_def timers_in_order_def batch_timers_def armed_handle_def)
qed

lemma sendEvents_in_order: "timers_in_order (sendEvents s) = timers_in_order s"
  by (rule timers_in_order_same) simp_all

lemma addToQueue_in_order:
  assumes "timers_in_order s"
  shows "timers_in_order (addToQueue event s)"
proof -
  let ?s1 = "s\<lparr>eventQueue := eventQueue s @ [event], pushed := pushed s @ [event]\<rparr>"
  have "timers_in_order ?s1"
    using assms by (simp add: timers_in_order_same [of ?s1 s])
  then show ?thesis
    by (simp add: addToQueue_def Let_def sendEvents_in_order scheduleBatchSend_in_order)
qed

lemma trackEvent_in_order:
  assumes "timers_in_order s"
  shows "timers_in_order (trackEvent b event s)"
proof (cases "isInitialized s")
  case False
  with assms show ?thesis by (simp add: trackEvent_def)
next
  case True
  obtain uid sm where u: "(if truthy_str (userId event) then (userId event, storage s)
                            else getUserId (storage s)) = (uid, sm)"
    by (cases "(if truthy_str (userId event) then (userId event, storage s)
                else getUserId (storage s))")
  have "timers_in_order (s\<lparr>storage := sm\<rparr>)"
    using assms by (simp add: timers_in_order_same [of "s\<lparr>storage := sm\<rparr>" s])
  then show ?thesis
    using True u by (simp add: trackEvent_def Let_def addToQueue_in_order)
qed

lemma trackPageView_in_order:
  "timers_in_order s \<Longrightarrow> timers_in_order (trackPageView b props s)"
  by (simp add: trackPageView_def Let_def trackEvent_in_order)

lemma history_change_in_order:
  assumes "timers_in_order s"
  shows "timers_in_order (history_change b s)"
proof (cases "isCollecting (collector s) \<and> autoTrackPageView (config s) = Some True")
  case False
  with assms show ?thesis by (auto simp: history_change_def)
next
  case True
  obtain c created where cc: "collector_trackPageView b (collector s) = (c, created)"
    by (cases "collector_trackPageView b (collector s)")
  let ?s1 = "s\<lparr>collector := c\<rparr>"
  let ?s2 = "case created of None \<Rightarrow> ?s1 | Some event \<Rightarrow> handleAutoEvent b event ?s1"
  have "timers_in_order ?s1"
    using assms by (simp add: timers_in_order_same [of ?s1 s])
  then have "timers_in_order ?s2"
    by (simp add: handleAutoEvent_def trackEvent_in_order split: option.splits)
  then have "timers_in_order (?s2\<lparr>collector := (collector ?s2)\<lparr>pageStartTime := now b\<rparr>\<rparr>)"
    by (simp add: timers_in_order_same
        [of "?s2\<lparr>collector := (collector ?s2)\<lparr>pageStartTime := now b\<rparr>\<rparr>" ?s2])
  then show ?thesis
    using True cc by (simp add: history_change_def Let_def)
qed

lemma flush_in_order: "timers_in_order s \<Longrightarrow> timers_in_order (flush s)"
  by (simp add: flush_def sendEvents_in_order cancelBatchTimer_in_order)

lemma destroy_in_order:
  assumes "timers_in_order s"
  shows "timers_in_order (destroy s)"
proof -
  let ?s1 = "s\<lparr>collector := collector_stop (collector s)\<rparr>"
  have "timers_in_order ?s1"
    using assms by (simp add: timers_in_order_same [of ?s1 s])
  then have "timers_in_order (flush (cancelBatchTimer ?s1))"
    by (simp add: flush_in_order cancelBatchTimer_in_order)
  then have "timers_in_order ((flush (cancelBatchTimer ?s1))\<lparr>isInitialized := False\<rparr>)"
    by (simp add: timers_in_order_same
        [of "(flush (cancelBatchTimer ?s1))\<lparr>isInitialized := False\<rparr>" "flush (cancelBatchTimer ?s1)"])
  then show ?thesis by (simp add: destroy_def Let_def)
qed

lemma find_handle:
  "find (\<lambda>t. fst t = h) ts = Some t \<Longrightarrow> t \<in> set ts \<and> fst t = h"
  by (induction ts) (auto split: if_splits)

lemma batch_filter_unaffected:
  assumes "distinct (map fst ts)" and "(h, d, RestoreSendCallback) \<in> set ts"
  shows "filter (\<lambda>t. snd (snd t) = BatchSendCallback) (filter (\<lambda>t. fst t \<noteq> h) ts)
           = filter (\<lambda>t. snd (snd t) = BatchSendCallback) ts"
proof -
  have "fst t \<noteq> h" if "t \<in> set ts" "snd (snd t) = BatchSendCallback" for t
  proof
    assume "fst t = h"
    with assms that(1) have "t = (h, d, RestoreSendCallback)"
      by (metis eq_key_imp_eq_value prod.collapse)
    with that(2) show False by simp
  qed
  then show ?thesis
    by (simp add: filter_filter cong: filter_cong) (metis (mono_tags, lifting) filter_cong)
qed

lemma timer_fires_in_order:
  assumes "timers_in_order s"
  shows "timers_in_order (timer_fires h s)"
proof (cases "find (\<lambda>t. fst t = h) (timers s)")
  case None
  with assms show ?thesis by (simp add: timer_fires_def)
next
  case (Some t)
  obtain h' delay callback where t: "t = (h', delay, callback)" by (cases t)
  from find_handle [OF Some] t have mem: "(h, delay, callback) \<in> set (timers s)" and hh: "h' = h"
    by auto
  from assms have d: "distinct (map fst (timers s))"
    and l: "list_all (\<lambda>t. fst t \<le> lastTimerId s) (timers s)"
    and b: "map fst (filter (\<lambda>t. snd (snd t) = BatchSendCallback) (timers s))
              = armed_handle (batchTimer s)"
    by (simp_all add: timers_in_order_def batch_timers_def)
  show ?thesis
  proof (cases callback)
    case BatchSendCallback
    with mem have "h \<in> set (map fst (filter (\<lambda>t. snd (snd t) = BatchSendCallback) (timers s)))"
      by force
    with b have "armed_handle (batchTimer s) = [h]"
      by (auto simp: armed_handle_def split: option.splits if_splits)
    with b have "map fst (filter (\<lambda>t. snd (snd t) = BatchSendCallback) (timers s)) = [h]"
      by simp
    from filter_other_handle [OF d this] clearTimeout_keeps_bounds(1) [OF d]
      clearTimeout_keeps_bounds(2) [OF l]
    show ?thesis
      using Some t BatchSendCallback
      by (simp add: timer_fires_def Let_def timers_in_order_def batch_timers_def armed_handle_def)
  next
    case RestoreSendCallback
    with mem have "(h, delay, RestoreSendCallback) \<in> set (timers s)" by simp
    from batch_filter_unaffected [OF d this] b clearTimeout_keeps_bounds(1) [OF d]
      clearTimeout_keeps_bounds(2) [OF l]
    show ?thesis
      using Some t RestoreSendCallback
      by (simp add: timer_fires_def Let_def timers_in_order_def batch_timers_def)
  qed
qed

lemma report_settles_in_order: "timers_in_order (report_settles i env s) = timers_in_order s"
  by (rule timers_in_order_same) (simp_all add: report_settles_def)

lemma handleBeforeUnload_in_order: "timers_in_order (handleBeforeUnload env s) = timers_in_order s"
  by (rule timers_in_order_same) simp_all

lemma step_in_order: "timers_in_order s \<Longrightarrow> timers_in_order (step a s)"
  by (cases a)
    (simp_all add: trackEvent_in_order trackPageView_in_order history_change_in_order
      flush_in_order destroy_in_order timer_fires_in_order report_settles_in_order
      handleBeforeUnload_in_order)

lemma run_in_order: "timers_in_order s \<Longrightarrow> timers_in_order (run as s)"
  by (induction as arbitrary: s) (simp_all add: step_in_order)

section \<open>Starting a tracker\<close>

lemma getPendingEvents_setUserId [simp]: "getPendingEvents (setUserId uid sm) = getPendingEvents sm"
  by (simp add: setUserId_def setItem_def getPendingEvents_def getItem_def split: option.splits)

lemma getPendingEvents_new_StorageManager:
  "getPendingEvents (new_StorageManager uuid (Some ls)) =
     (case argos_pending_events ls of Some (EventsJSON events) \<Rightarrow> events | _ \<Rightarrow> [])"
  by (simp add: new_StorageManager_def getOrCreateSessionId_def getUserId_def setItem_def
      getItem_def getPendingEvents_def Let_def
      split: option.splits prod.splits stored_events.splits)

lemma localStorage_clearPendingEvents:
  "localStorage sm = Some ls \<Longrightarrow>
   localStorage (clearPendingEvents sm) = Some (ls\<lparr>argos_pending_events := None\<rparr>)"
  by (simp add: clearPendingEvents_def removeItem_def)

lemma localStorage_setUserId:
  "localStorage sm = Some ls \<Longrightarrow> \<exists>ls'. localStorage (setUserId uid sm) = Some ls'"
  by (simp add: setUserId_def setItem_def)

lemma localStorage_new_StorageManager:
  "\<exists>ls'. localStorage (new_StorageManager uuid (Some ls)) = Some ls'"
  by (simp add: new_StorageManager_def getOrCreateSessionId_def getUserId_def setItem_def
      getItem_def Let_def split: option.splits prod.splits)

lemma restorePendingEvents_nothing:
  "getPendingEvents (storage s) = [] \<Longrightarrow> restorePendingEvents s = s"
  by (simp add: restorePendingEvents_def)

lemma restorePendingEvents_some:
  "getPendingEvents (storage s) \<noteq> [] \<Longrightarrow>
   restorePendingEvents s =
     s\<lparr>eventQueue := eventQueue s @ getPendingEvents (storage s),
       pushed := pushed s @ getPendingEvents (storage s),
       storage := clearPendingEvents (storage s),
       timers := timers s @ [(Suc (lastTimerId s), 1000, RestoreSendCallback)],
       lastTimerId := Suc (lastTimerId s)\<rparr>"
  by (simp add: restorePendingEvents_def window_setTimeout_def Let_def)

lemma restorePendingEvents_in_order:
  assumes "timers_in_order s"
  shows "timers_in_order (restorePendingEvents s)"
proof (cases "getPendingEvents (storage s) = []")
  case True
  with assms show ?thesis by (simp add: restorePendingEvents_nothing)
next
  case False
  with assms show ?thesis
    by (simp add: restorePendingEvents_some timers_in_order_def batch_timers_def
        list_all_le_Suc fresh_handle)
qed

lemma timers_in_order_initialized:
  "timers_in_order (s\<lparr>isInitialized := v\<rparr>) = timers_in_order s"
  by (simp add: timers_in_order_def batch_timers_def)

text \<open>
  \<open>init\<close> on a tracker that is not initialised yet: the page view the collector creates
  while starting reaches \<open>trackEvent\<close> before \<open>isInitialized\<close> is set and is ignored.
\<close>

lemma init_uninitialized:
  assumes "\<not> isInitialized s"
  shows "init b s =
     (restorePendingEvents
        ((case cfg_userId (config s) of
            None \<Rightarrow> s
          | Some uid \<Rightarrow> if uid \<noteq> [] then s\<lparr>storage := setUserId uid (storage s)\<rparr> else s)
         \<lparr>collector := fst (collector_start b (autoTrackPageView (config s)) (collector s))\<rparr>))
     \<lparr>isInitialized := True\<rparr>"
  using assms
  by (simp add: init_def Let_def handleAutoEvent_def trackEvent_def
      split: option.splits prod.splits)

lemma new_ArgosTracker_in_order: "timers_in_order (new_ArgosTracker b ls cfg)"
proof -
  let ?fresh = "\<lparr>config = with_DEFAULT_CONFIG cfg,
        storage = new_StorageManager (random_uuid b) ls,
        collector = new_AutoCollector,
        eventQueue = [], batchTimer = None, isInitialized = False,
        timers = [], lastTimerId = 0,
        pushed = [], handedToReporter = [], inFlight = [], beaconSends = []\<rparr>"
  let ?s1 = "(case cfg_userId (config ?fresh) of
            None \<Rightarrow> ?fresh
          | Some uid \<Rightarrow> if uid \<noteq> [] then ?fresh\<lparr>storage := setUserId uid (storage ?fresh)\<rparr>
                        else ?fresh)
         \<lparr>collector := fst (collector_start b (autoTrackPageView (config ?fresh))
                               (collector ?fresh))\<rparr>"
  have "timers_in_order ?s1"
    by (simp add: timers_in_order_def batch_timers_def armed_handle_def split: option.splits)
  then have "timers_in_order (restorePendingEvents ?s1)"
    by (rule restorePendingEvents_in_order)
  then have "timers_in_order ((restorePendingEvents ?s1)\<lparr>isInitialized := True\<rparr>)"
    by (simp only: timers_in_order_initialized)
  moreover have "new_ArgosTracker b ls cfg = (restorePendingEvents ?s1)\<lparr>isInitialized := True\<rparr>"
    unfolding new_ArgosTracker_def by (rule init_uninitialized) simp
  ultimately show ?thesis by simp
qed

lemma new_ArgosTracker_restored:
  assumes "argos_pending_events ls = Some (EventsJSON events)" and "events \<noteq> []"
  shows "\<exists>sm c. getPendingEvents sm = events \<and> (\<exists>ls'. localStorage sm = Some ls') \<and>
     new_ArgosTracker b (Some ls) cfg =
       \<lparr>config = with_DEFAULT_CONFIG cfg,
        storage = clearPendingEvents sm,
        collector = c,
        eventQueue = events, batchTimer = None, isInitialized = True,
        timers = [(1, 1000, RestoreSendCallback)], lastTimerId = 1,
        pushed = events, handedToReporter = [], inFlight = [], beaconSends = []\<rparr>"
proof -
  let ?sm0 = "new_StorageManager (random_uuid b) (Some ls)"
  let ?fresh = "\<lparr>config = with_DEFAULT_CONFIG cfg,
        storage = ?sm0,
        collector = new_AutoCollector,
        eventQueue = [], batchTimer = None, isInitialized = False,
        timers = [], lastTimerId = 0,
        pushed = [], handedToReporter = [], inFlight = [], beaconSends = []\<rparr>"
  define sm where "sm = (case cfg_userId (with_DEFAULT_CONFIG cfg) of
            None \<Rightarrow> ?sm0
          | Some uid \<Rightarrow> if uid \<noteq> [] then setUserId uid ?sm0 else ?sm0)"
  define c where "c = fst (collector_start b (autoTrackPageView (with_DEFAULT_CONFIG cfg))
                            new_AutoCollector)"
  have p0: "getPendingEvents ?sm0 = events"
    using assms by (simp add: getPendingEvents_new_StorageManager)
  have p: "getPendingEvents sm = events"
    by (simp add: sm_def p0 split: option.splits)
  obtain ls0 where "localStorage ?sm0 = Some ls0"
    using localStorage_new_StorageManager by blast
  then have l: "\<exists>ls'. localStorage sm = Some ls'"
    by (auto simp: sm_def localStorage_setUserId split: option.splits)
  have s1: "(case cfg_userId (config ?fresh) of
            None \<Rightarrow> ?fresh
          | Some uid \<Rightarrow> if uid \<noteq> [] then ?fresh\<lparr>storage := setUserId uid (storage ?fresh)\<rparr>
                        else ?fresh)
         \<lparr>collector := fst (collector_start b (autoTrackPageView (config ?fresh))
                               (collector ?fresh))\<rparr>
        = ?fresh\<lparr>storage := sm, collector := c\<rparr>"
    by (simp add: sm_def c_def split: option.splits)
  have "init b ?fresh =
          (restorePendingEvents (?fresh\<lparr>storage := sm, collector := c\<rparr>))\<lparr>isInitialized := True\<rparr>"
    unfolding s1 [symmetric] by (rule init_uninitialized) simp
  then have "new_ArgosTracker b (Some ls) cfg =
          (restorePendingEvents (?fresh\<lparr>storage := sm, collector := c\<rparr>))\<lparr>isInitialized := True\<rparr>"
    by (simp only: new_ArgosTracker_def)
  also have "\<dots> = \<lparr>config = with_DEFAULT_CONFIG cfg,
        storage = clearPendingEvents sm,
        collector = c,
        eventQueue = events, batchTimer = None, isInitialized = True,
        timers = [(1, 1000, RestoreSendCallback)], lastTimerId = 1,
        pushed = events, handedToReporter = [], inFlight = [], beaconSends = []\<rparr>"
    using assms(2) by (simp add: restorePendingEvents_some p)
  finally show ?thesis using p l by blast
qed

text \<open>
  Claim C6. A tracker constructed over a store whose overflow holds the events
  \<open>events\<close> (at least one) starts with exactly those events in its queue, the overflow
  key removed, nothing handed to the reporter, and one pending timeout of 1000 ms whose
  callback is \<open>sendEvents\<close>. When that timeout fires first, the restored events form one
  batch; if its request succeeds the overflow stays empty, if it fails the overflow holds
  the same events again. Whatever else happens after the start, the batches handed to the
  reporter followed by the queue are the restored events followed by the events pushed
  later: none of the restored events is dropped or handed over twice.
\<close>

theorem restore_on_start:
  assumes "argos_pending_events ls = Some (EventsJSON events)" and "events \<noteq> []"
  shows "let s0 = new_ArgosTracker b (Some ls) cfg;
             s1 = timer_fires 1 s0;
             s' = run as s0
         in eventQueue s0 = events \<and> pushed s0 = events \<and>
            getPendingEvents (storage s0) = [] \<and>
            (\<exists>ls'. localStorage (storage s0) = Some ls' \<and> argos_pending_events ls' = None) \<and>
            timers s0 = [(1, 1000, RestoreSendCallback)] \<and> batchTimer s0 = None \<and>
            handedToReporter s0 = [] \<and> inFlight s0 = [] \<and> beaconSends s0 = [] \<and>
            handedToReporter s1 = [events] \<and> inFlight s1 = [events] \<and> eventQueue s1 = [] \<and>
            timers s1 = [] \<and> getPendingEvents (storage s1) = [] \<and>
            (report (config s1) env events = Inr True \<longrightarrow>
               getPendingEvents (storage (report_settles 0 env s1)) = []) \<and>
            (report (config s1) env events = Inr False \<longrightarrow>
               getPendingEvents (storage (report_settles 0 env s1)) = events) \<and>
            take (length events) (pushed s') = events \<and>
            concat (handedToReporter s') @ eventQueue s'
              = events @ drop (length events) (pushed s')"
proof -
  from new_ArgosTracker_restored [OF assms, of b cfg]
  obtain sm c ls0 where sm: "getPendingEvents sm = events" "localStorage sm = Some ls0"
    and s0: "new_ArgosTracker b (Some ls) cfg =
       \<lparr>config = with_DEFAULT_CONFIG cfg,
        storage = clearPendingEvents sm,
        collector = c,
        eventQueue = events, batchTimer = None, isInitialized = True,
        timers = [(1, 1000, RestoreSendCallback)], lastTimerId = 1,
        pushed = events, handedToReporter = [], inFlight = [], beaconSends = []\<rparr>"
    by blast
  define s0 where "s0 = new_ArgosTracker b (Some ls) cfg"
  define s1 where "s1 = timer_fires 1 s0"
  have f0: "eventQueue s0 = events" "pushed s0 = events" "timers s0 = [(1, 1000, RestoreSendCallback)]"
    "batchTimer s0 = None" "handedToReporter s0 = []" "inFlight s0 = []" "beaconSends s0 = []"
    "storage s0 = clearPendingEvents sm" "config s0 = with_DEFAULT_CONFIG cfg"
    by (simp_all add: s0_def s0)
  have st0: "localStorage (storage s0) = Some (ls0\<lparr>argos_pending_events := None\<rparr>)"
    by (simp add: f0 localStorage_clearPendingEvents sm)
  have g0: "getPendingEvents (storage s0) = []"
    by (simp add: f0 getPendingEvents_clearPendingEvents)
  have s1: "s1 = s0\<lparr>timers := [], eventQueue := [], handedToReporter := [events],
                    inFlight := [events]\<rparr>"
    using assms(2)
    by (simp add: s1_def timer_fires_def f0 Let_def sendEvents_nonempty clearTimeout_def)
  have f1: "handedToReporter s1 = [events]" "inFlight s1 = [events]" "eventQueue s1 = []"
    "timers s1 = []" "storage s1 = storage s0" "config s1 = config s0"
    by (simp_all add: s1)
  have ok: "getPendingEvents (storage (report_settles 0 env s1)) = []"
    if "report (config s1) env events = Inr True"
    using that by (simp add: report_settles_def f1 sendEvents_settle_def g0)
  have ko: "getPendingEvents (storage (report_settles 0 env s1)) = events"
    if "report (config s1) env events = Inr False"
    using that
    by (simp add: report_settles_def f1 sendEvents_settle_def
        getPendingEvents_savePendingEvents [OF st0] g0)
  have cons: "conserved s0 (run as s0)" by (rule run_conserved)
  have t: "take (length events) (pushed (run as s0)) = events"
    using cons by (simp add: conserved_def f0)
  have k: "concat (handedToReporter (run as s0)) @ eventQueue (run as s0)
             = events @ drop (length events) (pushed (run as s0))"
    using cons by (simp add: conserved_def f0)
  show ?thesis
    unfolding Let_def s0_def [symmetric] s1_def [symmetric]
    using f0(1-7) g0 st0 f1(1-4) ok ko t k
    by (simp add: f1(5))
qed

theorem restore_on_start_witness:
  "eventQueue (new_ArgosTracker (sample_browser 900)
      (Some (sample_storage [sample_event ''a'', sample_event ''b''])) sample_config)
     = [sample_event ''a'', sample_event ''b''] \<and>
   timers (new_ArgosTracker (sample_browser 900)
      (Some (sample_storage [sample_event ''a'', sample_event ''b''])) sample_config)
     = [(1, 1000, RestoreSendCallback)] \<and>
   handedToReporter (timer_fires 1 (new_ArgosTracker (sample_browser 900)
      (Some (sample_storage [sample_event ''a'', sample_event ''b''])) sample_config))
     = [[sample_event ''a'', sample_event ''b'']]"
proof -
  have a: "argos_pending_events (sample_storage [sample_event ''a'', sample_event ''b''])
             = Some (EventsJSON [sample_event ''a'', sample_event ''b''])"
    by (simp add: sample_storage_def)
  have b: "[sample_event ''a'', sample_event ''b''] \<noteq> []" by simp
  from restore_on_start [OF a b, of "sample_browser 900" sample_config "[]" "sample_net 200"]
  show ?thesis by (simp add: Let_def)
qed

lemma fold_addToQueue_armed:
  assumes "reportMethod (config s) = Some BATCH" and "timer_armed (batchTimer s)"
    and "int (length (eventQueue s) + length es) < or_num (batchSize (config s)) 10"
  shows "timers (fold addToQueue es s) = timers s \<and>
         batchTimer (fold addToQueue es s) = batchTimer s \<and>
         handedToReporter (fold addToQueue es s) = handedToReporter s \<and>
         eventQueue (fold addToQueue es s) = eventQueue s @ es"
  using assms
proof (induction es arbitrary: s)
  case Nil
  then show ?case by simp
next
  case (Cons e es)
  let ?s1 = "s\<lparr>eventQueue := eventQueue s @ [e], pushed := pushed s @ [e]\<rparr>"
  have step: "addToQueue e s = ?s1"
    using Cons.prems by (simp add: addToQueue_batch_below scheduleBatchSend_armed)
  have "timers (fold addToQueue es ?s1) = timers ?s1 \<and>
        batchTimer (fold addToQueue es ?s1) = batchTimer ?s1 \<and>
        handedToReporter (fold addToQueue es ?s1) = handedToReporter ?s1 \<and>
        eventQueue (fold addToQueue es ?s1) = eventQueue ?s1 @ es"
    using Cons.prems by (intro Cons.IH) simp_all
  then show ?case by (simp add: step)
qed

lemma fold_addToQueue_unarmed:
  assumes "reportMethod (config s) = Some BATCH" and "\<not> timer_armed (batchTimer s)"
    and "int (length (eventQueue s) + length es) < or_num (batchSize (config s)) 10"
    and "es \<noteq> []"
  shows "timers (fold addToQueue es s) =
           timers s @ [(Suc (lastTimerId s), or_num (batchInterval (config s)) 5000,
                        BatchSendCallback)] \<and>
         batchTimer (fold addToQueue es s) = Some (Suc (lastTimerId s)) \<and>
         handedToReporter (fold addToQueue es s) = handedToReporter s \<and>
         eventQueue (fold addToQueue es s) = eventQueue s @ es"
proof -
  from assms(4) obtain e rest where es: "es = e # rest" by (cases es) auto
  let ?s1 = "s\<lparr>eventQueue := eventQueue s @ [e], pushed := pushed s @ [e],
               timers := timers s @ [(Suc (lastTimerId s),
                             or_num (batchInterval (config s)) 5000, BatchSendCallback)],
               lastTimerId := Suc (lastTimerId s),
               batchTimer := Some (Suc (lastTimerId s))\<rparr>"
  have step: "addToQueue e s = ?s1"
    using assms(1-3) by (simp add: es addToQueue_batch_below scheduleBatchSend_unarmed)
  have "timers (fold addToQueue rest ?s1) = timers ?s1 \<and>
        batchTimer (fold addToQueue rest ?s1) = batchTimer ?s1 \<and>
        handedToReporter (fold addToQueue rest ?s1) = handedToReporter ?s1 \<and>
        eventQueue (fold addToQueue rest ?s1) = eventQueue ?s1 @ rest"
    using assms(1,3) by (intro fold_addToQueue_armed) (simp_all add: es timer_armed_def)
  then show ?thesis by (simp add: es step)
qed

lemma batch_timers_at_most_one:
  assumes "timers_in_order s"
  shows "length (batch_timers s) \<le> 1 \<and> map fst (batch_timers s) = armed_handle (batchTimer s)"
proof -
  from assms have m: "map fst (batch_timers s) = armed_handle (batchTimer s)"
    by (simp add: timers_in_order_def)
  have "length (armed_handle (batchTimer s)) \<le> 1"
    by (simp add: armed_handle_def split: option.splits)
  with m have "length (batch_timers s) \<le> 1" by (metis length_map)
  with m show ?thesis by simp
qed

text \<open>
  Claim C9. In every state a tracker can reach from its construction, whatever is tracked,
  flushed, fired, settled or signalled in between, at most one timeout armed by
  \<open>scheduleBatchSend\<close> is pending, and it is the one whose handle \<open>batchTimer\<close> holds.
  In batch mode, a run of enqueues that keeps the queue below the batch size arms exactly
  one such timeout when none was armed (at the first enqueue; the others find it armed) and
  none when one was armed already; nothing is handed to the reporter meanwhile.
\<close>

theorem single_batch_timer:
  "let s = run as (new_ArgosTracker b ls cfg)
   in length (batch_timers s) \<le> 1 \<and>
      map fst (batch_timers s) = armed_handle (batchTimer s) \<and>
      (reportMethod (config s) = Some BATCH \<and> es \<noteq> [] \<and>
       int (length (eventQueue s) + length es) < or_num (batchSize (config s)) 10 \<longrightarrow>
         (\<not> timer_armed (batchTimer s) \<longrightarrow>
            batch_timers s = [] \<and>
            batch_timers (fold addToQueue es s) =
              [(Suc (lastTimerId s), or_num (batchInterval (config s)) 5000, BatchSendCallback)] \<and>
            batch_timers (addToQueue (hd es) s) = batch_timers (fold addToQueue es s)) \<and>
         (timer_armed (batchTimer s) \<longrightarrow>
            batch_timers (fold addToQueue es s) = batch_timers s \<and>
            length (batch_timers s) = 1) \<and>
         handedToReporter (fold addToQueue es s) = handedToReporter s)"
proof -
  define s where "s = run as (new_ArgosTracker b ls cfg)"
  have inv: "timers_in_order s"
    unfolding s_def by (intro run_in_order new_ArgosTracker_in_order)
  note one = batch_timers_at_most_one [OF inv]
  have unarmed: "batch_timers s = [] \<and>
            batch_timers (fold addToQueue es s) =
              [(Suc (lastTimerId s), or_num (batchInterval (config s)) 5000, BatchSendCallback)] \<and>
            batch_timers (addToQueue (hd es) s) = batch_timers (fold addToQueue es s) \<and>
            handedToReporter (fold addToQueue es s) = handedToReporter s"
    if c: "reportMethod (config s) = Some BATCH" "es \<noteq> []"
      "int (length (eventQueue s) + length es) < or_num (batchSize (config s)) 10"
      and u: "\<not> timer_armed (batchTimer s)"
  proof -
    from one u have none: "batch_timers s = []"
      by (simp add: armed_handle_unarmed)
    have c1: "int (length (eventQueue s) + length [hd es]) < or_num (batchSize (config s)) 10"
      using c(2,3) by (cases es) auto
    from fold_addToQueue_unarmed [OF c(1) u c(3) c(2)]
    have all: "timers (fold addToQueue es s) =
           timers s @ [(Suc (lastTimerId s), or_num (batchInterval (config s)) 5000,
                        BatchSendCallback)]"
      and h: "handedToReporter (fold addToQueue es s) = handedToReporter s"
      by simp_all
    from fold_addToQueue_unarmed [OF c(1) u c1]
    have first: "timers (addToQueue (hd es) s) =
           timers s @ [(Suc (lastTimerId s), or_num (batchInterval (config s)) 5000,
                        BatchSendCallback)]"
      by simp
    from none have f: "filter (\<lambda>t. snd (snd t) = BatchSendCallback) (timers s) = []"
      by (simp add: batch_timers_def)
    show ?thesis
      using none h by (simp add: batch_timers_def all first f)
  qed
  have armed: "batch_timers (fold addToQueue es s) = batch_timers s \<and>
            length (batch_timers s) = 1 \<and>
            handedToReporter (fold addToQueue es s) = handedToReporter s"
    if c: "reportMethod (config s) = Some BATCH" "es \<noteq> []"
      "int (length (eventQueue s) + length es) < or_num (batchSize (config s)) 10"
      and a: "timer_armed (batchTimer s)"
  proof -
    from a have "length (armed_handle (batchTimer s)) = 1"
      by (auto simp: timer_armed_def armed_handle_def split: option.splits)
    with one have l: "length (batch_timers s) = 1" by (metis length_map)
    from fold_addToQueue_armed [OF c(1) a c(3)] l show ?thesis
      by (simp add: batch_timers_def)
  qed
  show ?thesis
    unfolding Let_def s_def [symmetric]
    using one unarmed armed by blast
qed

theorem single_batch_timer_witness:
  "batch_timers (fold addToQueue [sample_event ''a'', sample_event ''b'']
      (run [] (new_ArgosTracker (sample_browser 900) None (sample_config\<lparr>batchSize := Some 10\<rparr>))))
     = [(1, 1000, BatchSendCallback)] \<and>
   batch_timers (fold addToQueue [sample_event ''c'']
      (run [Track (sample_browser 950) (sample_event ''a''),
            Track (sample_browser 960) (sample_event ''b'')]
         (new_ArgosTracker (sample_browser 900) None (sample_config\<lparr>batchSize := Some 10\<rparr>))))
     = [(1, 1000, BatchSendCallback)]"
proof -
  let ?cfg = "sample_config\<lparr>batchSize := Some 10\<rparr>"
  let ?s0 = "new_ArgosTracker (sample_browser 900) None ?cfg"
  let ?s2 = "run [Track (sample_browser 950) (sample_event ''a''),
                  Track (sample_browser 960) (sample_event ''b'')] ?s0"
  have s0: "?s0 =
       \<lparr>config = with_DEFAULT_CONFIG ?cfg,
        storage = \<lparr>sm_sessionId = ''0acc9ccd-57fb-4e8f-b260-03584f0a307e'', sm_userId = None,
                   localStorage = None\<rparr>,
        collector = new_AutoCollector\<lparr>isCollecting := True, pageStartTime := 900\<rparr>,
        eventQueue = [], batchTimer = None, isInitialized = True,
        timers = [], lastTimerId = 0,
        pushed = [], handedToReporter = [], inFlight = [], beaconSends = []\<rparr>"
    by (simp add: new_ArgosTracker_def init_def with_DEFAULT_CONFIG_def or_default_def
        sample_config_def sample_browser_def new_StorageManager_def
        getOrCreateSessionId_def getItem_def setItem_def getUserId_def truthy_str_def
        new_AutoCollector_def collector_start_def restorePendingEvents_def
        getPendingEvents_def Let_def)
  have cfg: "reportMethod (with_DEFAULT_CONFIG ?cfg) = Some BATCH"
    "batchSize (with_DEFAULT_CONFIG ?cfg) = Some 10"
    "batchInterval (with_DEFAULT_CONFIG ?cfg) = Some 1000"
    by (simp_all add: with_DEFAULT_CONFIG_def or_default_def sample_config_def)
  have f0: "reportMethod (config (run [] ?s0)) = Some BATCH"
    "eventQueue (run [] ?s0) = []" "batchTimer (run [] ?s0) = None"
    "lastTimerId (run [] ?s0) = 0" "batchSize (config (run [] ?s0)) = Some 10"
    "batchInterval (config (run [] ?s0)) = Some 1000"
    by (simp_all add: s0 cfg)
  have f2: "reportMethod (config ?s2) = Some BATCH"
    "length (eventQueue ?s2) = 2" "batchTimer ?s2 = Some 1"
    "batchSize (config ?s2) = Some 10" "batch_timers ?s2 = [(1, 1000, BatchSendCallback)]"
    by (simp_all add: s0 cfg trackEvent_def addToQueue_def scheduleBatchSend_def
        window_setTimeout_def timer_armed_def or_num_def Let_def batch_timers_def
        sample_event_def bare_event_def truthy_str_def getUserId_def getItem_def)
  from single_batch_timer [of "[]" "sample_browser 900" None ?cfg
      "[sample_event ''a'', sample_event ''b'']"]
  have one: "batch_timers (fold addToQueue [sample_event ''a'', sample_event ''b''] (run [] ?s0))
               = [(1, 1000, BatchSendCallback)]"
    unfolding Let_def using f0 by (simp add: or_num_def timer_armed_def)
  from single_batch_timer [of "[Track (sample_browser 950) (sample_event ''a''),
      Track (sample_browser 960) (sample_event ''b'')]" "sample_browser 900" None ?cfg
      "[sample_event ''c'']"]
  have two: "batch_timers (fold addToQueue [sample_event ''c''] ?s2) = batch_timers ?s2"
    unfolding Let_def using f2(1-4) by (simp add: or_num_def timer_armed_def)
  from one two f2(5) show ?thesis by simp
qed

section \<open>An enqueue while a flush is in flight\<close>













end
